theory Spec2Isabelle
  imports Main
begin

section \<open>Python values and text\<close>

text \<open>
  The adapter of \<^verbatim>\<open>SubjectiveCodexDataSource.py\<close> handles Python values of the
  shapes JSON can carry: \<^verbatim>\<open>None\<close>, booleans, integers, floats, strings, lists
  and dictionaries with string keys. A Python \<^verbatim>\<open>str\<close> is modelled as a
  \<^typ>\<open>string\<close> holding the UTF-8 bytes of the text. Floating point is not
  interpreted: a float keeps the text of its literal. A dictionary is an association
  list in insertion order; \<^const>\<open>map_of\<close> is the lookup of \<^verbatim>\<open>dict.get\<close>.
\<close>

datatype pyval =
    PyNone
  | PyBool bool
  | PyInt int
  | PyFloat string
  | PyStr string
  | PyList "pyval list"
  | PyDict "(string \<times> pyval) list"

type_synonym pydict = "(string \<times> pyval) list"

text \<open>The exceptions that can be raised inside the pipeline. Each carries the text
  that \<^verbatim>\<open>str(e)\<close> gives, except \<open>TimeoutExpired\<close>, whose text the code never reads.\<close>

datatype py_exc =
    RuntimeError string
  | AttributeError string
  | TypeError string
  | ValueError string
  | UnicodeEncodeError string
  | TimeoutExpired
  | OtherException string

definition type_name :: "pyval \<Rightarrow> string" where
  "type_name v = (case v of
       PyNone \<Rightarrow> ''NoneType''
     | PyBool b \<Rightarrow> ''bool''
     | PyInt n \<Rightarrow> ''int''
     | PyFloat f \<Rightarrow> ''float''
     | PyStr s \<Rightarrow> ''str''
     | PyList xs \<Rightarrow> ''list''
     | PyDict kv \<Rightarrow> ''dict'')"

text \<open>\<^verbatim>\<open>v.get\<close> on a value that is not a dictionary.\<close>

definition no_attribute_get :: "pyval \<Rightarrow> py_exc" where
  "no_attribute_get v =
     AttributeError ([CHR 0x27] @ type_name v @ [CHR 0x27] @ '' object has no attribute ''
                     @ [CHR 0x27] @ ''get'' @ [CHR 0x27])"

text \<open>\<^verbatim>\<open>for item in v\<close> on a value that cannot be iterated.\<close>

definition not_iterable :: "pyval \<Rightarrow> py_exc" where
  "not_iterable v =
     TypeError ([CHR 0x27] @ type_name v @ [CHR 0x27] @ '' object is not iterable'')"

text \<open>\<^verbatim>\<open>s += v\<close> for a string \<open>s\<close> and a value \<open>v\<close> that is not a string.\<close>

definition cannot_concatenate :: "pyval \<Rightarrow> py_exc" where
  "cannot_concatenate v =
     TypeError (''can only concatenate str (not '' @ [CHR 0x22] @ type_name v @ [CHR 0x22]
                @ '') to str'')"

subsection \<open>\<^verbatim>\<open>str.strip\<close>, \<^verbatim>\<open>str.split\<close>, \<^verbatim>\<open>str.join\<close>, \<^verbatim>\<open>str(int)\<close>\<close>

text \<open>
  \<^verbatim>\<open>str.strip()\<close> removes the characters for which \<^verbatim>\<open>str.isspace\<close> holds from
  both ends: U+0009..U+000D, U+001C..U+0020, U+0085, U+00A0, U+1680, U+2000..U+200A,
  U+2028, U+2029, U+202F, U+205F and U+3000, listed here by their UTF-8 encodings.
\<close>

definition whitespace_chars :: "string list" where
  "whitespace_chars =
     [[CHR 0x09], [CHR 0x0A], [CHR 0x0B], [CHR 0x0C], [CHR 0x0D],
      [CHR 0x1C], [CHR 0x1D], [CHR 0x1E], [CHR 0x1F], [CHR 0x20],
      [CHR 0xC2, CHR 0x85], [CHR 0xC2, CHR 0xA0],
      [CHR 0xE1, CHR 0x9A, CHR 0x80],
      [CHR 0xE2, CHR 0x80, CHR 0x80], [CHR 0xE2, CHR 0x80, CHR 0x81],
      [CHR 0xE2, CHR 0x80, CHR 0x82], [CHR 0xE2, CHR 0x80, CHR 0x83],
      [CHR 0xE2, CHR 0x80, CHR 0x84], [CHR 0xE2, CHR 0x80, CHR 0x85],
      [CHR 0xE2, CHR 0x80, CHR 0x86], [CHR 0xE2, CHR 0x80, CHR 0x87],
      [CHR 0xE2, CHR 0x80, CHR 0x88], [CHR 0xE2, CHR 0x80, CHR 0x89],
      [CHR 0xE2, CHR 0x80, CHR 0x8A],
      [CHR 0xE2, CHR 0x80, CHR 0xA8], [CHR 0xE2, CHR 0x80, CHR 0xA9],
      [CHR 0xE2, CHR 0x80, CHR 0xAF],
      [CHR 0xE2, CHR 0x81, CHR 0x9F],
      [CHR 0xE3, CHR 0x80, CHR 0x80]]"

definition starts_with :: "string \<Rightarrow> string \<Rightarrow> bool" where
  "starts_with p s = (take (length p) s = p)"

text \<open>Drop leading occurrences of the given non-empty sequences, as long as one matches.\<close>

function drop_leading :: "string list \<Rightarrow> string \<Rightarrow> string" where
  "drop_leading seqs s =
     (case find (\<lambda>p. p \<noteq> [] \<and> starts_with p s) seqs of
        None \<Rightarrow> s
      | Some p \<Rightarrow> drop_leading seqs (drop (length p) s))"
  by pat_completeness auto
termination
proof (relation "measure (\<lambda>(seqs, s). length s)")
  show "wf (measure (\<lambda>(seqs, s). length s))" by simp
next
  fix seqs :: "string list" and s p :: string
  assume "find (\<lambda>p. p \<noteq> [] \<and> starts_with p s) seqs = Some p"
  then have "p \<noteq> []" and "starts_with p s"
    by (auto simp: find_Some_iff)
  then have "s \<noteq> []" and "0 < length p"
    by (auto simp: starts_with_def)
  then show "((seqs, drop (length p) s), (seqs, s)) \<in> measure (\<lambda>(seqs, s). length s)"
    by simp
qed

definition lstrip :: "string \<Rightarrow> string" where
  "lstrip s = drop_leading whitespace_chars s"

definition rstrip :: "string \<Rightarrow> string" where
  "rstrip s = rev (drop_leading (map rev whitespace_chars) (rev s))"

definition strip :: "string \<Rightarrow> string" where
  "strip s = rstrip (lstrip s)"

text \<open>\<^verbatim>\<open>s.split("\n")\<close>: the pieces between line feeds; always at least one piece.\<close>

fun split_lines :: "string \<Rightarrow> string list" where
  "split_lines [] = [[]]"
| "split_lines (c # cs) =
     (if c = CHR 0x0A then [] # split_lines cs
      else (case split_lines cs of
              [] \<Rightarrow> [[c]]
            | l # ls \<Rightarrow> (c # l) # ls))"

text \<open>\<^verbatim>\<open>sep.join(xs)\<close>.\<close>

fun join :: "string \<Rightarrow> string list \<Rightarrow> string" where
  "join sep [] = []"
| "join sep [x] = x"
| "join sep (x # y # ys) = x @ sep @ join sep (y # ys)"

text \<open>\<^verbatim>\<open>str(n)\<close> for an integer: its decimal digits, with a minus sign when negative.\<close>

fun digits :: "nat \<Rightarrow> string" where
  "digits n =
     (if n < 10 then [''0123456789'' ! n]
      else digits (n div 10) @ [''0123456789'' ! (n mod 10)])"

definition str_int :: "int \<Rightarrow> string" where
  "str_int i = (if i < 0 then ''-'' @ digits (nat (- i)) else digits (nat i))"

subsection \<open>\<^verbatim>\<open>json.loads\<close>\<close>

text \<open>
  \<^verbatim>\<open>json.loads(line)\<close> either returns the decoded value, raises
  \<^verbatim>\<open>json.JSONDecodeError\<close>, or fails in some other way (the interpreter's recursion
  limit on deeply nested text, its limit on the digits of an integer); the last outcome
  carries the text of the exception.
\<close>

datatype decode_result = Decoded pyval | DecodeError | DecodeRaised string

text \<open>
  The decoder below follows the grammar that Python's \<^verbatim>\<open>json\<close> module accepts by
  default: the JSON grammar, the extra constants \<^verbatim>\<open>NaN\<close>, \<^verbatim>\<open>Infinity\<close> and
  \<^verbatim>\<open>-Infinity\<close>, no control character inside a string, a repeated key keeping its
  last value. It first cuts the text into tokens and then builds the value with an
  explicit stack of the containers that are still open. It never gives
  \<open>DecodeRaised\<close>: the interpreter's limits are not part of it.
\<close>

datatype token = TLBrace | TRBrace | TLBrack | TRBrack | TColon | TComma | TScalar pyval

definition json_space :: "char \<Rightarrow> bool" where
  "json_space c = (c \<in> set [CHR 0x20, CHR 0x09, CHR 0x0A, CHR 0x0D])"

definition is_digit :: "char \<Rightarrow> bool" where
  "is_digit c = (c \<in> set ''0123456789'')"

definition digit_value :: "char \<Rightarrow> nat" where
  "digit_value c = of_char c - 48"

definition hex_value :: "char \<Rightarrow> nat option" where
  "hex_value c =
     (let n = of_char c :: nat in
      if 48 \<le> n \<and> n \<le> 57 then Some (n - 48)
      else if 97 \<le> n \<and> n \<le> 102 then Some (n - 87)
      else if 65 \<le> n \<and> n \<le> 70 then Some (n - 55)
      else None)"

definition hex4 :: "string \<Rightarrow> (nat \<times> string) option" where
  "hex4 s =
     (case map hex_value (take 4 s) of
        [Some w, Some x, Some y, Some z] \<Rightarrow> Some (((w * 16 + x) * 16 + y) * 16 + z, drop 4 s)
      | _ \<Rightarrow> None)"

text \<open>The UTF-8 bytes of a code point (a lone surrogate is written in the same
  three-byte form).\<close>

definition utf8 :: "nat \<Rightarrow> string" where
  "utf8 cp =
     (if cp < 0x80 then [char_of cp]
      else if cp < 0x800 then [char_of (0xC0 + cp div 64), char_of (0x80 + cp mod 64)]
      else if cp < 0x10000 then
        [char_of (0xE0 + cp div 4096), char_of (0x80 + cp div 64 mod 64),
         char_of (0x80 + cp mod 64)]
      else
        [char_of (0xF0 + cp div 262144), char_of (0x80 + cp div 4096 mod 64),
         char_of (0x80 + cp div 64 mod 64), char_of (0x80 + cp mod 64)])"

text \<open>The text after \<^verbatim>\<open>\u\<close>: four hexadecimal digits, joined with a following low
  surrogate escape when they give a high surrogate.\<close>

definition scan_unicode :: "string \<Rightarrow> (string \<times> string) option" where
  "scan_unicode s =
     (case hex4 s of
        None \<Rightarrow> None
      | Some (u, r) \<Rightarrow>
          if 0xD800 \<le> u \<and> u \<le> 0xDBFF \<and> starts_with [CHR 0x5C, CHR ''u''] r then
            (case hex4 (drop 2 r) of
               None \<Rightarrow> None
             | Some (u2, r2) \<Rightarrow>
                 if 0xDC00 \<le> u2 \<and> u2 \<le> 0xDFFF
                 then Some (utf8 (0x10000 + (u - 0xD800) * 1024 + (u2 - 0xDC00)), r2)
                 else Some (utf8 u, r))
          else Some (utf8 u, r))"

definition simple_escape :: "char \<Rightarrow> char option" where
  "simple_escape e =
     map_of [(CHR 0x22, CHR 0x22), (CHR 0x5C, CHR 0x5C), (CHR ''/'', CHR ''/''),
             (CHR ''b'', CHR 0x08), (CHR ''f'', CHR 0x0C), (CHR ''n'', CHR 0x0A),
             (CHR ''r'', CHR 0x0D), (CHR ''t'', CHR 0x09)] e"

lemma hex4_shorter: "hex4 s = Some (u, r) \<Longrightarrow> length r \<le> length s"
  by (auto simp: hex4_def split: list.splits option.splits)

lemma scan_unicode_shorter: "scan_unicode s = Some (b, r) \<Longrightarrow> length r \<le> length s"
  by (fastforce simp: scan_unicode_def split: option.splits if_splits dest: hex4_shorter)

text \<open>The body of a string, after its opening quote: the decoded text and what follows
  the closing quote.\<close>

function scan_string :: "string \<Rightarrow> string \<Rightarrow> (string \<times> string) option" where
  "scan_string acc [] = None"
| "scan_string acc (c # cs) =
     (if c = CHR 0x22 then Some (acc, cs)
      else if c = CHR 0x5C then
        (case cs of
           [] \<Rightarrow> None
         | e # r \<Rightarrow>
             if e = CHR ''u'' then
               (case scan_unicode r of
                  None \<Rightarrow> None
                | Some (bytes, r') \<Rightarrow> scan_string (acc @ bytes) r')
             else
               (case simple_escape e of
                  None \<Rightarrow> None
                | Some x \<Rightarrow> scan_string (acc @ [x]) r))
      else if (of_char c :: nat) < 32 then None
      else scan_string (acc @ [c]) cs)"
  by pat_completeness auto
termination
  by (relation "measure (\<lambda>(acc, s). length s)") (auto dest: scan_unicode_shorter)

definition int_of_digits :: "string \<Rightarrow> int" where
  "int_of_digits ds = int (foldl (\<lambda>a c. 10 * a + digit_value c) 0 ds)"

text \<open>A number at the start of the text: an optional minus sign, the integer part
  (a lone zero, or a non-zero digit and more digits), an optional fraction (a point and
  at least one digit) and an optional exponent (\<^verbatim>\<open>e\<close> or \<^verbatim>\<open>E\<close>, an optional sign
  and at least one digit). Without fraction and exponent it is an integer.\<close>

definition int_part :: "string \<Rightarrow> string" where
  "int_part s =
     (case s of
        [] \<Rightarrow> []
      | c # r \<Rightarrow> if c = CHR ''0'' then [c]
                 else if is_digit c then c # takeWhile is_digit r
                 else [])"

definition frac_part :: "string \<Rightarrow> string" where
  "frac_part s =
     (case s of
        c # d # r \<Rightarrow> if c = CHR ''.'' \<and> is_digit d then c # d # takeWhile is_digit r else []
      | _ \<Rightarrow> [])"

definition exp_part :: "string \<Rightarrow> string" where
  "exp_part s =
     (case s of
        [] \<Rightarrow> []
      | c # r \<Rightarrow>
          if c = CHR ''e'' \<or> c = CHR ''E'' then
            (let sg = (case r of
                         [] \<Rightarrow> []
                       | x # r' \<Rightarrow> if x = CHR ''+'' \<or> x = CHR ''-'' then [x] else []);
                 ds = takeWhile is_digit (drop (length sg) r)
             in if ds = [] then [] else c # sg @ ds)
          else [])"

definition scan_number :: "string \<Rightarrow> (pyval \<times> string) option" where
  "scan_number s =
     (let sign = (if starts_with ''-'' s then ''-'' else []);
          ip = int_part (drop (length sign) s)
      in if ip = [] then None
         else
           let frac = frac_part (drop (length (sign @ ip)) s);
               ex = exp_part (drop (length (sign @ ip @ frac)) s);
               lexeme = sign @ ip @ frac @ ex;
               rest = drop (length lexeme) s
           in if frac = [] \<and> ex = []
              then Some (PyInt (if sign = [] then int_of_digits ip else - int_of_digits ip), rest)
              else Some (PyFloat lexeme, rest))"

definition literals :: "(string \<times> pyval) list" where
  "literals =
     [(''null'', PyNone), (''true'', PyBool True), (''false'', PyBool False),
      (''NaN'', PyFloat ''NaN''), (''Infinity'', PyFloat ''Infinity''),
      (''-Infinity'', PyFloat ''-Infinity'')]"

definition scan_literal :: "string \<Rightarrow> (pyval \<times> string) option" where
  "scan_literal s =
     (case find (\<lambda>(p, v). starts_with p s) literals of
        None \<Rightarrow> None
      | Some (p, v) \<Rightarrow> Some (v, drop (length p) s))"

text \<open>A string, a constant or a number at the start of the text.\<close>

definition scan_scalar :: "string \<Rightarrow> (pyval \<times> string) option" where
  "scan_scalar s =
     (case s of
        [] \<Rightarrow> None
      | c # cs \<Rightarrow>
          if c = CHR 0x22 then
            (case scan_string [] cs of
               None \<Rightarrow> None
             | Some (str, r) \<Rightarrow> Some (PyStr str, r))
          else
            (case scan_literal s of
               Some vr \<Rightarrow> Some vr
             | None \<Rightarrow> scan_number s))"

lemma scan_string_shorter: "scan_string acc s = Some (str, r) \<Longrightarrow> length r \<le> length s"
proof (induction acc s rule: scan_string.induct)
  case (1 acc)
  then show ?case by simp
next
  case (2 acc c cs)
  show ?case
  proof (cases "c = CHR 0x22")
    case True
    with "2.prems" show ?thesis by simp
  next
    case quote: False
    show ?thesis
    proof (cases "c = CHR 0x5C")
      case True
      with quote "2.prems" "2.IH"(1,2) show ?thesis
        by (fastforce split: list.splits option.splits if_splits dest: scan_unicode_shorter)
    next
      case False
      with quote "2.prems" "2.IH"(3) show ?thesis
        by (fastforce split: if_splits)
    qed
  qed
qed

lemma find_SomeD: "find P xs = Some x \<Longrightarrow> x \<in> set xs \<and> P x"
  by (induction xs) (auto split: if_splits)

lemma scan_literal_shorter: "scan_literal s = Some (v, r) \<Longrightarrow> length r < length s"
proof -
  assume a: "scan_literal s = Some (v, r)"
  then obtain p where f: "find (\<lambda>(p, v). starts_with p s) literals = Some (p, v)"
    and r: "r = drop (length p) s"
    by (auto simp: scan_literal_def split: option.splits)
  from f have "(p, v) \<in> set literals" and sw: "starts_with p s"
    by (auto dest: find_SomeD)
  then have "p \<noteq> []"
    by (auto simp: literals_def)
  with sw have "s \<noteq> []" and "0 < length p"
    by (auto simp: starts_with_def)
  with r show ?thesis by simp
qed

lemma scan_number_shorter: "scan_number s = Some (v, r) \<Longrightarrow> length r < length s"
proof -
  assume a: "scan_number s = Some (v, r)"
  define sign where "sign = (if starts_with ''-'' s then ''-'' else [])"
  define ip where "ip = int_part (drop (length sign) s)"
  from a have ip: "ip \<noteq> []"
    unfolding scan_number_def sign_def ip_def Let_def
    by (simp split: if_splits)
  then have "drop (length sign) s \<noteq> []"
    unfolding ip_def int_part_def by (auto split: list.splits)
  then have s: "s \<noteq> []" by auto
  from a obtain n where "r = drop n s" and "length ip \<le> n"
    unfolding scan_number_def sign_def ip_def Let_def
    by (auto split: if_splits)
  with ip s show ?thesis
    by (cases ip) auto
qed

lemma scan_scalar_shorter: "scan_scalar s = Some (v, r) \<Longrightarrow> length r < length s"
  unfolding scan_scalar_def
  by (auto split: list.splits if_splits option.splits
           dest: scan_string_shorter scan_literal_shorter scan_number_shorter)

definition punctuation :: "char \<Rightarrow> token option" where
  "punctuation c =
     map_of [(CHR ''{'', TLBrace), (CHR ''}'', TRBrace), (CHR ''['', TLBrack),
             (CHR '']'', TRBrack), (CHR '':'', TColon), (CHR '','', TComma)] c"

text \<open>The tokens of a text, or \<open>None\<close> when some part of it is no token.\<close>

function tokenize :: "string \<Rightarrow> token list option" where
  "tokenize [] = Some []"
| "tokenize (c # cs) =
     (if json_space c then tokenize cs
      else
        (case punctuation c of
           Some t \<Rightarrow> map_option ((#) t) (tokenize cs)
         | None \<Rightarrow>
             (case scan_scalar (c # cs) of
                None \<Rightarrow> None
              | Some (v, r) \<Rightarrow> map_option ((#) (TScalar v)) (tokenize r))))"
  by pat_completeness auto
termination
  by (relation "measure length") (auto dest: scan_scalar_shorter)

text \<open>Storing a key in a dictionary: a key that is present keeps its place and takes
  the new value.\<close>

fun dict_set :: "pydict \<Rightarrow> string \<Rightarrow> pyval \<Rightarrow> pydict" where
  "dict_set [] k v = [(k, v)]"
| "dict_set ((k', v') # kv) k v =
     (if k' = k then (k, v) # kv else (k', v') # dict_set kv k v)"

text \<open>A container that is still open: a list with its elements so far, or a dictionary
  with its entries so far and the key that waits for its value.\<close>

datatype frame = InList "pyval list" | InDict pydict "string option"

text \<open>What the grammar allows next.\<close>

datatype expect =
    Value
  | ValueOrClose
  | KeyOrClose
  | Key
  | Colon
  | CommaOrClose
  | End pyval

fun complete :: "pyval \<Rightarrow> frame list \<Rightarrow> (expect \<times> frame list) option" where
  "complete v [] = Some (End v, [])"
| "complete v (InList xs # st) = Some (CommaOrClose, InList (xs @ [v]) # st)"
| "complete v (InDict kv (Some k) # st) = Some (CommaOrClose, InDict (dict_set kv k v) None # st)"
| "complete v (InDict kv None # st) = None"

definition start_value :: "frame list \<Rightarrow> token \<Rightarrow> (expect \<times> frame list) option" where
  "start_value st t =
     (case t of
        TScalar v \<Rightarrow> complete v st
      | TLBrack \<Rightarrow> Some (ValueOrClose, InList [] # st)
      | TLBrace \<Rightarrow> Some (KeyOrClose, InDict [] None # st)
      | _ \<Rightarrow> None)"

definition read_key :: "frame list \<Rightarrow> token \<Rightarrow> (expect \<times> frame list) option" where
  "read_key st t =
     (case t of
        TScalar (PyStr k) \<Rightarrow>
          (case st of
             InDict kv pending # st' \<Rightarrow> Some (Colon, InDict kv (Some k) # st')
           | _ \<Rightarrow> None)
      | _ \<Rightarrow> None)"

definition close_list :: "frame list \<Rightarrow> token \<Rightarrow> (expect \<times> frame list) option" where
  "close_list st t =
     (case (t, st) of
        (TRBrack, InList xs # st') \<Rightarrow> complete (PyList xs) st'
      | _ \<Rightarrow> None)"

definition close_dict :: "frame list \<Rightarrow> token \<Rightarrow> (expect \<times> frame list) option" where
  "close_dict st t =
     (case (t, st) of
        (TRBrace, InDict kv None # st') \<Rightarrow> complete (PyDict kv) st'
      | _ \<Rightarrow> None)"

definition parse_step :: "expect \<Rightarrow> frame list \<Rightarrow> token \<Rightarrow> (expect \<times> frame list) option" where
  "parse_step e st t =
     (case e of
        Value \<Rightarrow> start_value st t
      | ValueOrClose \<Rightarrow> (if t = TRBrack then close_list st t else start_value st t)
      | KeyOrClose \<Rightarrow> (if t = TRBrace then close_dict st t else read_key st t)
      | Key \<Rightarrow> read_key st t
      | Colon \<Rightarrow> (if t = TColon then Some (Value, st) else None)
      | CommaOrClose \<Rightarrow>
          (case st of
             [] \<Rightarrow> None
           | InList xs # st' \<Rightarrow>
               if t = TComma then Some (Value, st) else close_list st t
           | InDict kv pending # st' \<Rightarrow>
               if t = TComma then Some (Key, st) else close_dict st t)
      | End v \<Rightarrow> None)"

fun parse_tokens :: "expect \<Rightarrow> frame list \<Rightarrow> token list \<Rightarrow> pyval option" where
  "parse_tokens e st [] = (case e of End v \<Rightarrow> Some v | _ \<Rightarrow> None)"
| "parse_tokens e st (t # ts) =
     (case parse_step e st t of
        None \<Rightarrow> None
      | Some (e', st') \<Rightarrow> parse_tokens e' st' ts)"

definition json_decode :: "string \<Rightarrow> decode_result" where
  "json_decode s =
     (case tokenize s of
        None \<Rightarrow> DecodeError
      | Some ts \<Rightarrow>
          (case parse_tokens Value [] ts of
             None \<Rightarrow> DecodeError
           | Some v \<Rightarrow> Decoded v))"

section \<open>The adapter\<close>

text \<open>
  The configuration is what \<^verbatim>\<open>__init__\<close> reads from \<^verbatim>\<open>params\<close>; it does not change
  afterwards. The deadline is a whole number of seconds.
\<close>

record config =
  auth_method :: string
  api_key :: string
  model :: string
  sandbox_mode :: string
  working_directory :: string
  timeout :: int
  full_auto :: bool
  enable_search :: bool

text \<open>How \<^verbatim>\<open>subprocess.run(..., capture_output=True, text=True, timeout=t)\<close> ends: the
  process completes with an exit code, its output and its error output; the deadline
  passes (\<^verbatim>\<open>subprocess.TimeoutExpired\<close>); or another exception is raised, whose text is
  kept.\<close>

datatype run_outcome = Completed int string string | TimedOut | RunFailed string

text \<open>
  What the operating system and the interpreter answer: the search path, the file
  system, the child processes, the JSON decoder, the text of a float, list or
  dictionary (or the exception that \<^verbatim>\<open>str()\<close> raises on it, such as
  \<^verbatim>\<open>RecursionError\<close> on deep nesting), the limit on the digits of an integer that is
  made a string (\<^verbatim>\<open>sys.get_int_max_str_digits()\<close>: 0 for none, 4300 by default), and
  whether a text can be encoded for the operating system (the text of the
  \<^verbatim>\<open>UnicodeEncodeError\<close> when it cannot). The theorems hold for every such runtime.
\<close>

record runtime =
  which :: "string \<Rightarrow> string option"
  expanduser :: "string \<Rightarrow> string"
  isfile :: "string \<Rightarrow> bool"
  isdir :: "string \<Rightarrow> bool"
  subprocess_run ::
    "string list \<Rightarrow> (string \<Rightarrow> string option) \<Rightarrow> string option \<Rightarrow> int \<Rightarrow> run_outcome"
  json_loads :: "string \<Rightarrow> decode_result"
  repr :: "pyval \<Rightarrow> py_exc + string"
  int_max_str_digits :: nat
  encode_error :: "string \<Rightarrow> string option"

text \<open>
  What the adapter does to the outside, in order. \<^verbatim>\<open>BBLogger.log\<close> is such an
  effect and is taken to return normally. Interrupts of the interpreter
  (\<^verbatim>\<open>KeyboardInterrupt\<close>, \<^verbatim>\<open>SystemExit\<close>), which are no \<^verbatim>\<open>Exception\<close>, are outside
  the model.
\<close>

datatype effect =
    Which string
  | IsFile string
  | IsDir string
  | Run "string list"
  | Log string

text \<open>
  The mutable part: the two private attributes \<^verbatim>\<open>_authenticated\<close> and
  \<^verbatim>\<open>_codex_path\<close>, the process environment \<^verbatim>\<open>os.environ\<close>, and the trace of the
  effects so far.
\<close>

record adapter =
  authenticated :: bool
  codex_path :: "string option"
  environ :: "string \<Rightarrow> string option"
  effects :: "effect list"

definition init_adapter :: "(string \<Rightarrow> string option) \<Rightarrow> adapter" where
  "init_adapter env =
     \<lparr>authenticated = False, codex_path = None, environ = env, effects = []\<rparr>"

definition emit :: "effect \<Rightarrow> adapter \<Rightarrow> adapter" where
  "emit e s = s\<lparr>effects := effects s @ [e]\<rparr>"

text \<open>The truth value of an optional path: \<^verbatim>\<open>None\<close> and the empty string are false.\<close>

definition truthy :: "string option \<Rightarrow> bool" where
  "truthy p = (case p of None \<Rightarrow> False | Some x \<Rightarrow> x \<noteq> [])"

subsection \<open>\<^verbatim>\<open>_find_codex_cli\<close>\<close>

definition common_paths :: "runtime \<Rightarrow> string list" where
  "common_paths w =
     [expanduser w ''~/.local/bin/codex'',
      expanduser w ''~/bin/codex'',
      ''/usr/local/bin/codex'',
      ''C:'' @ [CHR 0x5C] @ ''Program Files'' @ [CHR 0x5C] @ ''codex'' @ [CHR 0x5C] @ ''codex.exe'',
      expanduser w (''~'' @ [CHR 0x5C] @ ''AppData'' @ [CHR 0x5C] @ ''Local'' @ [CHR 0x5C]
                    @ ''Programs'' @ [CHR 0x5C] @ ''codex'' @ [CHR 0x5C] @ ''codex.exe'')]"

text \<open>The loop over the common installation locations.\<close>

fun check_paths :: "runtime \<Rightarrow> string list \<Rightarrow> adapter \<Rightarrow> string option \<times> adapter" where
  "check_paths w [] s = (None, s)"
| "check_paths w (path # paths) s =
     (let s1 = emit (IsFile path) s in
      if isfile w path then (Some path, s1\<lparr>codex_path := Some path\<rparr>)
      else check_paths w paths s1)"

definition find_codex_cli :: "runtime \<Rightarrow> adapter \<Rightarrow> string option \<times> adapter" where
  "find_codex_cli w s =
     (if truthy (codex_path s) then (codex_path s, s)
      else
        let s1 = emit (Which ''codex'') s;
            found = which w ''codex''
        in if truthy found then (found, s1\<lparr>codex_path := found\<rparr>)
           else check_paths w (common_paths w) s1)"

subsection \<open>\<^verbatim>\<open>_trigger_oauth_login\<close> and \<^verbatim>\<open>_ensure_authenticated\<close>\<close>

definition trigger_oauth_login :: "runtime \<Rightarrow> adapter \<Rightarrow> bool \<times> adapter" where
  "trigger_oauth_login w s =
     (let (found, s1) = find_codex_cli w s in
      case found of
        None \<Rightarrow> (False, s1)
      | Some path \<Rightarrow>
          if path = [] then (False, s1)
          else
            let s2 = emit (Log ''Starting Codex OAuth login (device auth)...'') s1;
                argv = [path, ''login'', ''--device-auth''];
                s3 = emit (Run argv) s2
            in (case subprocess_run w argv (environ s3) None 120 of
                 Completed returncode out err \<Rightarrow>
                   if returncode = 0 then
                     let s4 = s3\<lparr>authenticated := True\<rparr>;
                         output = strip out;
                         output1 = (if err \<noteq> [] then strip (join [CHR 0x0A] [output, strip err])
                                    else output);
                         s5 = (if output1 \<noteq> []
                               then emit (Log (''Codex login output:'' @ [CHR 0x0A] @ output1)) s4
                               else s4)
                     in (True, emit (Log ''Codex OAuth login successful'') s5)
                   else
                     let s4 = (if err \<noteq> []
                               then emit (Log (''Codex login error:'' @ [CHR 0x0A] @ strip err)) s3
                               else s3)
                     in (False, emit (Log ''Codex OAuth login failed'') s4)
               | TimedOut \<Rightarrow> (False, emit (Log ''Codex OAuth login timed out'') s3)
               | RunFailed e \<Rightarrow>
                   (False, emit (Log (''Error during Codex OAuth login: '' @ e)) s3)))"

text \<open>
  What \<^verbatim>\<open>os.environ[key] = value\<close> raises, if anything: the value is first encoded
  (\<^verbatim>\<open>UnicodeEncodeError\<close> when it cannot be, as for a lone surrogate) and then handed to
  the operating system, which refuses a NUL byte (\<^verbatim>\<open>ValueError\<close>).
\<close>

definition environ_set :: "runtime \<Rightarrow> string \<Rightarrow> py_exc option" where
  "environ_set w v =
     (case encode_error w v of
        Some e \<Rightarrow> Some (UnicodeEncodeError e)
      | None \<Rightarrow>
          if CHR 0x00 \<in> set v then Some (ValueError ''embedded null byte'') else None)"

text \<open>The method has no \<^verbatim>\<open>try\<close> of its own: an exception of the assignment to
  \<^verbatim>\<open>os.environ\<close> leaves it, before the adapter is marked authenticated.\<close>

definition ensure_authenticated ::
    "runtime \<Rightarrow> config \<Rightarrow> adapter \<Rightarrow> (py_exc + bool) \<times> adapter" where
  "ensure_authenticated w c s =
     (if authenticated s then (Inr True, s)
      else
        let (found, s1) = find_codex_cli w s in
        if \<not> truthy found then
          (Inr False, emit (Log ''Codex CLI not found. Please install it first.'') s1)
        else if auth_method c = ''api_key'' \<and> api_key c \<noteq> [] then
          (case environ_set w (api_key c) of
             Some e \<Rightarrow> (Inl e, s1)
           | None \<Rightarrow>
               (Inr True,
                emit (Log ''Using API key authentication for Codex CLI'')
                  (s1\<lparr>environ := (environ s1)(''OPENAI_API_KEY'' \<mapsto> api_key c),
                      authenticated := True\<rparr>)))
        else if auth_method c = ''oauth'' then
          (let (ok, s2) =
                 trigger_oauth_login w
                   (emit (Log ''OAuth authentication required. Triggering Codex login...'') s1)
           in (Inr ok, s2))
        else (Inr False, s1))"

subsection \<open>\<^verbatim>\<open>_build_command\<close>\<close>

text \<open>The list \<^verbatim>\<open>cmd\<close> grows by \<^verbatim>\<open>append\<close> and \<^verbatim>\<open>extend\<close>, one step per line of the
  source.\<close>

definition build_command ::
    "runtime \<Rightarrow> config \<Rightarrow> adapter \<Rightarrow> string \<Rightarrow> (py_exc + string list) \<times> adapter" where
  "build_command w c s message =
     (let (found, s1) = find_codex_cli w s in
      case found of
        None \<Rightarrow> (Inl (RuntimeError ''Codex CLI not found''), s1)
      | Some path \<Rightarrow>
          if path = [] then (Inl (RuntimeError ''Codex CLI not found''), s1)
          else
            let cmd0 = [path, ''exec''];
                cmd1 = cmd0 @ [''--json''];
                cmd2 = (if model c \<noteq> [] then cmd1 @ [''--model'', model c] else cmd1);
                cmd3 = (if sandbox_mode c \<noteq> [] then cmd2 @ [''--sandbox'', sandbox_mode c]
                        else cmd2);
                cmd4 = (if full_auto c then cmd3 @ [''--full-auto''] else cmd3);
                cmd5 = (if enable_search c then cmd4 @ [''--search''] else cmd4);
                cmd6 = (if working_directory c \<noteq> [] then cmd5 @ [''--cd'', working_directory c]
                        else cmd5);
                cmd7 = cmd6 @ [message]
            in (Inr cmd7, s1))"

subsection \<open>\<^verbatim>\<open>_parse_json_output\<close>\<close>

text \<open>\<^verbatim>\<open>v.get(key, dflt)\<close>: only a dictionary has the method.\<close>

definition dict_get :: "pyval \<Rightarrow> string \<Rightarrow> pyval \<Rightarrow> py_exc + pyval" where
  "dict_get v key dflt =
     (case v of
        PyDict kv \<Rightarrow> Inr (case map_of kv key of None \<Rightarrow> dflt | Some x \<Rightarrow> x)
      | _ \<Rightarrow> Inl (no_attribute_get v))"

text \<open>The values that \<^verbatim>\<open>for item in v\<close> visits: the elements of a list, the keys of a
  dictionary, the characters of a string (here byte by byte: all that matters below
  is that a non-empty string gives strings).\<close>

definition iterate :: "pyval \<Rightarrow> py_exc + pyval list" where
  "iterate v =
     (case v of
        PyList xs \<Rightarrow> Inr xs
      | PyDict kv \<Rightarrow> Inr (map (\<lambda>(k, x). PyStr k) kv)
      | PyStr s \<Rightarrow> Inr (map (\<lambda>ch. PyStr [ch]) s)
      | _ \<Rightarrow> Inl (not_iterable v))"

text \<open>The inner loop: the text of every item of type \<^verbatim>\<open>text\<close> is appended.\<close>

fun extract_items :: "pyval list \<Rightarrow> string \<Rightarrow> py_exc + string" where
  "extract_items [] acc = Inr acc"
| "extract_items (item # items) acc =
     (case dict_get item ''type'' PyNone of
        Inl e \<Rightarrow> Inl e
      | Inr t \<Rightarrow>
          if t = PyStr ''text'' then
            (case dict_get item ''text'' (PyStr []) of
               Inl e \<Rightarrow> Inl e
             | Inr x \<Rightarrow>
                 (case x of
                    PyStr txt \<Rightarrow> extract_items items (acc @ txt)
                  | _ \<Rightarrow> Inl (cannot_concatenate x)))
          else extract_items items acc)"

text \<open>The condition \<^verbatim>\<open>event.get("type") == "message" and event.get("role") == "assistant"\<close>;
  the second comparison is made only when the first holds.\<close>

definition is_assistant_message :: "pyval \<Rightarrow> py_exc + bool" where
  "is_assistant_message event =
     (case dict_get event ''type'' PyNone of
        Inl e \<Rightarrow> Inl e
      | Inr t \<Rightarrow>
          if t = PyStr ''message'' then
            (case dict_get event ''role'' PyNone of
               Inl e \<Rightarrow> Inl e
             | Inr r \<Rightarrow> Inr (r = PyStr ''assistant''))
          else Inr False)"

text \<open>What one decoded event adds to the assistant message.\<close>

definition extract_event :: "pyval \<Rightarrow> string \<Rightarrow> py_exc + string" where
  "extract_event event acc =
     (case is_assistant_message event of
        Inl e \<Rightarrow> Inl e
      | Inr b \<Rightarrow>
          if b then
            (case dict_get event ''content'' (PyList []) of
               Inl e \<Rightarrow> Inl e
             | Inr content \<Rightarrow>
                 (case iterate content of
                    Inl e \<Rightarrow> Inl e
                  | Inr items \<Rightarrow> extract_items items acc))
          else Inr acc)"

text \<open>The loop over the lines. Only \<^verbatim>\<open>json.JSONDecodeError\<close> is caught: the line is
  skipped. Any other exception leaves the function.\<close>

fun parse_lines ::
    "(string \<Rightarrow> decode_result) \<Rightarrow> string list \<Rightarrow> pyval list \<Rightarrow> string
     \<Rightarrow> py_exc + (pyval list \<times> string)" where
  "parse_lines loads [] evs acc = Inr (evs, acc)"
| "parse_lines loads (line # lines) evs acc =
     (if line = [] then parse_lines loads lines evs acc
      else
        (case loads line of
           DecodeError \<Rightarrow> parse_lines loads lines evs acc
         | DecodeRaised e \<Rightarrow> Inl (OtherException e)
         | Decoded event \<Rightarrow>
             (case extract_event event acc of
                Inl e \<Rightarrow> Inl e
              | Inr acc1 \<Rightarrow> parse_lines loads lines (evs @ [event]) acc1)))"

record parsed =
  events :: "pyval list"
  assistant_message :: string
  raw_output :: string

definition parse_json_output :: "(string \<Rightarrow> decode_result) \<Rightarrow> string \<Rightarrow> py_exc + parsed" where
  "parse_json_output loads output =
     (case parse_lines loads (split_lines (strip output)) [] [] of
        Inl e \<Rightarrow> Inl e
      | Inr (evs, acc) \<Rightarrow>
          Inr \<lparr>events = evs, assistant_message = acc, raw_output = output\<rparr>)"

subsection \<open>\<^verbatim>\<open>_process_message\<close>\<close>

text \<open>
  \<^verbatim>\<open>str(v)\<close>: a string is itself; an integer with more digits than the limit raises
  \<^verbatim>\<open>ValueError\<close>; the text of a float, a list or a dictionary, or the exception raised
  for it, is left to the runtime.
\<close>

definition py_str :: "runtime \<Rightarrow> pyval \<Rightarrow> py_exc + string" where
  "py_str w v =
     (case v of
        PyStr s \<Rightarrow> Inr s
      | PyNone \<Rightarrow> Inr ''None''
      | PyBool b \<Rightarrow> Inr (if b then ''True'' else ''False'')
      | PyInt n \<Rightarrow>
          if 0 < int_max_str_digits w \<and> int_max_str_digits w < length (digits (nat \<bar>n\<bar>))
          then Inl (ValueError (''Exceeds the limit ('' @ digits (int_max_str_digits w)
                     @ '' digits) for integer string conversion; ''
                     @ ''use sys.set_int_max_str_digits() to increase the limit''))
          else Inr (str_int n)
      | _ \<Rightarrow> repr w v)"

text \<open>
  The first three lines of the body. For a dictionary, \<^verbatim>\<open>str(message)\<close> is evaluated
  first, as the argument of \<^verbatim>\<open>get\<close>, whether or not the dictionary has a
  \<^verbatim>\<open>"content"\<close> entry; then the entry (or that text) is made a string. Either
  \<^verbatim>\<open>str()\<close> can raise.
\<close>

definition coerce_message :: "runtime \<Rightarrow> pyval \<Rightarrow> py_exc + string" where
  "coerce_message w message =
     (case message of
        PyDict kv \<Rightarrow>
          (case py_str w message of
             Inl e \<Rightarrow> Inl e
           | Inr whole \<Rightarrow>
               py_str w (case map_of kv ''content'' of
                           None \<Rightarrow> PyStr whole
                         | Some v \<Rightarrow> v))
      | _ \<Rightarrow> py_str w message)"

text \<open>The environment and the working directory handed to the child process.\<close>

definition exec_env :: "config \<Rightarrow> (string \<Rightarrow> string option) \<Rightarrow> (string \<Rightarrow> string option)" where
  "exec_env c env =
     (if auth_method c = ''api_key'' \<and> api_key c \<noteq> []
      then env(''OPENAI_API_KEY'' \<mapsto> api_key c) else env)"

definition exec_cwd :: "runtime \<Rightarrow> config \<Rightarrow> string option" where
  "exec_cwd w c =
     (if isdir w (working_directory c) then Some (working_directory c) else None)"

text \<open>The body of the \<^verbatim>\<open>try\<close> block: it returns a result, or raises.\<close>

definition process_message_try ::
    "runtime \<Rightarrow> config \<Rightarrow> adapter \<Rightarrow> string \<Rightarrow> (py_exc + pydict) \<times> adapter" where
  "process_message_try w c s message =
     (let (built, s1) = build_command w c s message in
      (case built of
         Inl e \<Rightarrow> (Inl e, s1)
       | Inr cmd \<Rightarrow>
           (let s2 = emit (Log (''Executing Codex command: '' @ join '' '' (take 3 cmd) @ ''...'')) s1;
                env = exec_env c (environ s2);
                s3 = emit (IsDir (working_directory c)) s2;
                cwd = exec_cwd w c;
                s4 = emit (Run cmd) s3
            in (case subprocess_run w cmd env cwd (timeout c) of
                  TimedOut \<Rightarrow> (Inl TimeoutExpired, s4)
                | RunFailed e \<Rightarrow> (Inl (OtherException e), s4)
                | Completed returncode out err \<Rightarrow>
                    if returncode \<noteq> 0 then
                      (Inr [(''error'', PyBool True),
                            (''error_type'', PyStr ''execution_error''),
                            (''message'', PyStr (if err \<noteq> [] then err else ''Codex execution failed'')),
                            (''return_code'', PyInt returncode),
                            (''original_message'', PyStr message)],
                       emit (Log (''Codex exec failed with code '' @ str_int returncode
                                  @ '': '' @ err)) s4)
                    else
                      (case parse_json_output (json_loads w) out of
                         Inl e \<Rightarrow> (Inl e, s4)
                       | Inr p \<Rightarrow>
                           (Inr [(''success'', PyBool True),
                                 (''response'', PyStr (assistant_message p)),
                                 (''events'', PyList (events p)),
                                 (''original_message'', PyStr message)],
                            s4))))))"

text \<open>The handler \<^verbatim>\<open>except Exception as e\<close>, given the text of \<^verbatim>\<open>e\<close>.\<close>

definition exception_reply :: "string \<Rightarrow> string \<Rightarrow> adapter \<Rightarrow> (py_exc + pydict) \<times> adapter" where
  "exception_reply message e s =
     (Inr [(''error'', PyBool True),
           (''error_type'', PyStr ''exception''),
           (''message'', PyStr e),
           (''original_message'', PyStr message)],
      emit (Log (''Error executing Codex command: '' @ e)) s)"

text \<open>
  The whole method. The coercion of the message and the authentication stand before the
  \<^verbatim>\<open>try\<close> block: an exception raised there leaves the method. The two handlers catch
  \<^verbatim>\<open>subprocess.TimeoutExpired\<close> first and every other exception of the block second.
  The result is \<open>Inr\<close> of the returned dictionary, or \<open>Inl\<close> of an exception that leaves
  the method.
\<close>

definition process_message ::
    "runtime \<Rightarrow> config \<Rightarrow> adapter \<Rightarrow> pyval \<Rightarrow> (py_exc + pydict) \<times> adapter" where
  "process_message w c s message0 =
     (case coerce_message w message0 of
        Inl e \<Rightarrow> (Inl e, s)
      | Inr message \<Rightarrow>
          (let (auth, s1) = ensure_authenticated w c s in
           (case auth of
              Inl e \<Rightarrow> (Inl e, s1)
            | Inr ok \<Rightarrow>
                if \<not> ok then
                  (Inr [(''error'', PyBool True),
                        (''error_type'', PyStr ''authentication_error''),
                        (''message'',
                         PyStr ''Failed to authenticate with Codex CLI. Please check your credentials.''),
                        (''original_message'', PyStr message)],
                   s1)
                else
                  (let (r, s2) = process_message_try w c s1 message in
                   (case r of
                      Inr reply \<Rightarrow> (Inr reply, s2)
                    | Inl e \<Rightarrow>
                        (case e of
                           TimeoutExpired \<Rightarrow>
                             (Inr [(''error'', PyBool True),
                                   (''error_type'', PyStr ''timeout''),
                                   (''message'',
                                    PyStr (''Codex execution timed out after ''
                                           @ str_int (timeout c) @ '' seconds'')),
                                   (''original_message'', PyStr message)],
                              emit (Log (''Codex command timed out after ''
                                         @ str_int (timeout c) @ '' seconds'')) s2)
                         | RuntimeError x \<Rightarrow> exception_reply message x s2
                         | AttributeError x \<Rightarrow> exception_reply message x s2
                         | TypeError x \<Rightarrow> exception_reply message x s2
                         | ValueError x \<Rightarrow> exception_reply message x s2
                         | UnicodeEncodeError x \<Rightarrow> exception_reply message x s2
                         | OtherException x \<Rightarrow> exception_reply message x s2))))))"

subsection \<open>The states an adapter can be in\<close>

text \<open>
  An adapter starts in the state \<^verbatim>\<open>__init__\<close> leaves and changes only through its
  methods, under whatever the runtime answers at each call. (\<^verbatim>\<open>_trigger_oauth_login\<close>
  is called by \<^verbatim>\<open>_ensure_authenticated\<close> only.)
\<close>

inductive reachable :: "config \<Rightarrow> adapter \<Rightarrow> bool" for c :: config where
  reach_init: "reachable c (init_adapter env)"
| reach_find: "reachable c s \<Longrightarrow> reachable c (snd (find_codex_cli w s))"
| reach_auth: "reachable c s \<Longrightarrow> reachable c (snd (ensure_authenticated w c s))"
| reach_build: "reachable c s \<Longrightarrow> reachable c (snd (build_command w c s p))"
| reach_process: "reachable c s \<Longrightarrow> reachable c (snd (process_message w c s m))"

section \<open>Events of the expected shape, and example inputs\<close>

text \<open>
  The protocol of \<^verbatim>\<open>codex exec --json\<close> sends one JSON object per line. An event has
  the expected shape when it is an object and, if it is an assistant message, its
  \<^verbatim>\<open>content\<close> is absent or a list of objects whose \<^verbatim>\<open>text\<close>, where the item is of type
  \<^verbatim>\<open>text\<close>, is absent or a string. A line is acceptable when it is empty, does not
  decode, or decodes to such an event.
\<close>

definition text_item_ok :: "pyval \<Rightarrow> bool" where
  "text_item_ok item =
     (case item of
        PyDict kv \<Rightarrow>
          (if map_of kv ''type'' = Some (PyStr ''text'') then
             (case map_of kv ''text'' of
                None \<Rightarrow> True
              | Some x \<Rightarrow> (case x of PyStr txt \<Rightarrow> True | _ \<Rightarrow> False))
           else True)
      | _ \<Rightarrow> False)"

definition event_ok :: "pyval \<Rightarrow> bool" where
  "event_ok v =
     (case v of
        PyDict kv \<Rightarrow>
          (if map_of kv ''type'' = Some (PyStr ''message'')
              \<and> map_of kv ''role'' = Some (PyStr ''assistant'') then
             (case map_of kv ''content'' of
                None \<Rightarrow> True
              | Some content \<Rightarrow>
                  (case content of PyList items \<Rightarrow> list_all text_item_ok items | _ \<Rightarrow> False))
           else True)
      | _ \<Rightarrow> False)"

text \<open>The assistant text as the specification words it: an item of type \<^verbatim>\<open>text\<close>
  gives its \<^verbatim>\<open>text\<close> field (nothing when absent); an assistant message gives the
  texts of its content items, in order and without separators; any other event gives
  nothing.\<close>

definition item_text :: "pyval \<Rightarrow> string" where
  "item_text item =
     (case item of
        PyDict kv \<Rightarrow>
          (if map_of kv ''type'' = Some (PyStr ''text'') then
             (case map_of kv ''text'' of
                None \<Rightarrow> []
              | Some x \<Rightarrow> (case x of PyStr txt \<Rightarrow> txt | _ \<Rightarrow> []))
           else [])
      | _ \<Rightarrow> [])"

definition event_text :: "pyval \<Rightarrow> string" where
  "event_text v =
     (case v of
        PyDict kv \<Rightarrow>
          (if map_of kv ''type'' = Some (PyStr ''message'')
              \<and> map_of kv ''role'' = Some (PyStr ''assistant'') then
             (case map_of kv ''content'' of
                None \<Rightarrow> []
              | Some content \<Rightarrow>
                  (case content of PyList items \<Rightarrow> concat (map item_text items) | _ \<Rightarrow> []))
           else [])
      | _ \<Rightarrow> [])"

definition line_ok :: "(string \<Rightarrow> decode_result) \<Rightarrow> string \<Rightarrow> bool" where
  "line_ok loads line =
     (if line = [] then True
      else (case loads line of
              Decoded v \<Rightarrow> event_ok v
            | DecodeError \<Rightarrow> True
            | DecodeRaised e \<Rightarrow> False))"

definition decoded_events :: "(string \<Rightarrow> decode_result) \<Rightarrow> string list \<Rightarrow> pyval list" where
  "decoded_events loads lines =
     concat (map (\<lambda>line. if line = [] then []
                          else (case loads line of Decoded v \<Rightarrow> [v] | _ \<Rightarrow> [])) lines)"

text \<open>The two-line output of the round-trip example: an assistant message saying
  \<^verbatim>\<open>Hello\<close>, then a line that is not JSON.\<close>

definition hello_line :: string where
  "hello_line =
     [CHR 0x7B, CHR 0x22] @ ''type'' @ [CHR 0x22] @ '':'' @ [CHR 0x22] @ ''message'' @ [CHR 0x22]
     @ '','' @ [CHR 0x22] @ ''role'' @ [CHR 0x22] @ '':'' @ [CHR 0x22] @ ''assistant'' @ [CHR 0x22]
     @ '','' @ [CHR 0x22] @ ''content'' @ [CHR 0x22] @ '':[{'' @ [CHR 0x22] @ ''type'' @ [CHR 0x22]
     @ '':'' @ [CHR 0x22] @ ''text'' @ [CHR 0x22] @ '','' @ [CHR 0x22] @ ''text'' @ [CHR 0x22]
     @ '':'' @ [CHR 0x22] @ ''Hello'' @ [CHR 0x22] @ ''}]}''"

definition hello_event :: pyval where
  "hello_event =
     PyDict [(''type'', PyStr ''message''), (''role'', PyStr ''assistant''),
             (''content'', PyList [PyDict [(''type'', PyStr ''text''), (''text'', PyStr ''Hello'')]])]"

definition two_line_output :: string where
  "two_line_output = hello_line @ [CHR 0x0A] @ ''not-json''"

text \<open>
  What holds in every state an adapter can be in: it is marked authenticated only after
  the executable was located and cached, and only in a configuration that can
  authenticate.
\<close>

definition adapter_inv :: "config \<Rightarrow> adapter \<Rightarrow> bool" where
  "adapter_inv c s =
     (if authenticated s
      then truthy (codex_path s)
           \<and> ((auth_method c = ''api_key'' \<and> api_key c \<noteq> []) \<or> auth_method c = ''oauth'')
      else True)"

text \<open>An example configuration and an example runtime: the executable is on the search
  path, and the child process prints the assistant message of the example.\<close>

definition example_config :: config where
  "example_config =
     \<lparr>auth_method = ''api_key'', api_key = ''sk-test'', model = ''o4-mini'',
      sandbox_mode = ''read-only'', working_directory = ''/work'', timeout = 300,
      full_auto = False, enable_search = True\<rparr>"

definition example_runtime :: runtime where
  "example_runtime =
     \<lparr>which = (\<lambda>name. if name = ''codex'' then Some ''/usr/bin/codex'' else None),
      expanduser = (\<lambda>p. ''/home/user'' @ drop 1 p),
      isfile = (\<lambda>p. False),
      isdir = (\<lambda>d. d = ''/work''),
      subprocess_run = (\<lambda>argv env cwd t. Completed 0 hello_line []),
      json_loads = json_decode,
      repr = (\<lambda>v. Inr ''...''),
      int_max_str_digits = 4300,
      encode_error = (\<lambda>v. None)\<rparr>"

text \<open>Two more runtimes: one whose child process runs into the deadline, and one whose
  child process exits with code 1 and the error text \<^verbatim>\<open>bad sandbox flag\<close>; a
  configuration whose credential holds a NUL byte; and the command that the example
  configuration gives for the prompt \<^verbatim>\<open>say hi\<close>.\<close>

definition timeout_runtime :: runtime where
  "timeout_runtime = example_runtime\<lparr>subprocess_run := (\<lambda>argv env cwd t. TimedOut)\<rparr>"

definition failing_runtime :: runtime where
  "failing_runtime =
     example_runtime\<lparr>subprocess_run := (\<lambda>argv env cwd t. Completed 1 [] ''bad sandbox flag'')\<rparr>"

text \<open>The credential is accepted: where the configuration makes the adapter store it in
  the environment, that assignment does not raise.\<close>

definition credential_accepted :: "runtime \<Rightarrow> config \<Rightarrow> bool" where
  "credential_accepted w c =
     (if auth_method c = ''api_key'' \<and> api_key c \<noteq> []
      then environ_set w (api_key c) = None else True)"

definition nul_config :: config where
  "nul_config = example_config\<lparr>api_key := ''a'' @ [CHR 0x00] @ ''b''\<rparr>"

definition example_command :: "string list" where
  "example_command =
     [''/usr/bin/codex'', ''exec'', ''--json'', ''--model'', ''o4-mini'',
      ''--sandbox'', ''read-only'', ''--search'', ''--cd'', ''/work'', ''say hi'']"

text \<open>
  The result mappings as the specification describes them: the success shape, and the
  error shape with one of the four error kinds, a message and the original prompt
  (and the exit code for an execution error).
\<close>

definition error_kinds :: "string list" where
  "error_kinds = [''authentication_error'', ''execution_error'', ''timeout'', ''exception'']"

definition success_shape :: "string \<Rightarrow> pydict \<Rightarrow> bool" where
  "success_shape prompt d =
     (map fst d = [''success'', ''response'', ''events'', ''original_message'']
      \<and> map_of d ''success'' = Some (PyBool True)
      \<and> (case map_of d ''response'' of Some (PyStr r) \<Rightarrow> True | _ \<Rightarrow> False)
      \<and> (case map_of d ''events'' of Some (PyList evs) \<Rightarrow> True | _ \<Rightarrow> False)
      \<and> map_of d ''original_message'' = Some (PyStr prompt))"

definition error_shape :: "string \<Rightarrow> pydict \<Rightarrow> bool" where
  "error_shape prompt d =
     (map_of d ''error'' = Some (PyBool True)
      \<and> (case map_of d ''error_type'' of Some (PyStr k) \<Rightarrow> k \<in> set error_kinds | _ \<Rightarrow> False)
      \<and> (case map_of d ''message'' of Some (PyStr txt) \<Rightarrow> True | _ \<Rightarrow> False)
      \<and> map_of d ''original_message'' = Some (PyStr prompt)
      \<and> (map fst d = [''error'', ''error_type'', ''message'', ''original_message'']
         \<or> (map fst d = [''error'', ''error_type'', ''message'', ''return_code'',
                          ''original_message'']
            \<and> map_of d ''error_type'' = Some (PyStr ''execution_error'')
            \<and> (case map_of d ''return_code'' of Some (PyInt n) \<Rightarrow> True | _ \<Rightarrow> False))))"


text \<open>The argument vectors of the child processes started so far; the vector of a login,
  and the vector of an execution that ends with a given prompt.\<close>

definition runs :: "adapter \<Rightarrow> string list list" where
  "runs s = concat (map (\<lambda>e. case e of Run argv \<Rightarrow> [argv] | _ \<Rightarrow> []) (effects s))"




section \<open>Properties\<close>

subsection \<open>The event-stream parser\<close>

lemma extract_items_ok:
  "list_all text_item_ok items \<Longrightarrow>
   extract_items items acc = Inr (acc @ concat (map item_text items))"
proof (induction items arbitrary: acc)
  case Nil
  then show ?case by simp
next
  case (Cons item items)
  from Cons.prems have item: "text_item_ok item" and rest: "list_all text_item_ok items"
    by simp_all
  from item obtain kv where kv: "item = PyDict kv"
    by (cases item) (simp_all add: text_item_ok_def)
  show ?case
  proof (cases "map_of kv ''type'' = Some (PyStr ''text'')")
    case False
    with kv Cons.IH [OF rest] show ?thesis
      by (auto simp: dict_get_def item_text_def split: option.splits)
  next
    case True
    with item kv have "map_of kv ''text'' = None \<or> (\<exists>txt. map_of kv ''text'' = Some (PyStr txt))"
      by (auto simp: text_item_ok_def split: option.splits pyval.splits)
    with True kv Cons.IH [OF rest] show ?thesis
      by (auto simp: dict_get_def item_text_def)
  qed
qed

lemma extract_event_ok:
  assumes "event_ok v"
  shows "extract_event v acc = Inr (acc @ event_text v)"
proof -
  from assms obtain kv where kv: "v = PyDict kv"
    by (cases v) (simp_all add: event_ok_def)
  show ?thesis
  proof (cases "map_of kv ''type'' = Some (PyStr ''message'')
                  \<and> map_of kv ''role'' = Some (PyStr ''assistant'')")
    case False
    with kv show ?thesis
      by (auto simp: extract_event_def is_assistant_message_def dict_get_def event_text_def
               split: option.splits)
  next
    case True
    then have am: "is_assistant_message v = Inr True"
      using kv by (simp add: is_assistant_message_def dict_get_def)
    from True assms kv
    have "map_of kv ''content'' = None
          \<or> (\<exists>items. map_of kv ''content'' = Some (PyList items) \<and> list_all text_item_ok items)"
      by (auto simp: event_ok_def split: option.splits pyval.splits)
    then show ?thesis
    proof
      assume "map_of kv ''content'' = None"
      with am kv True show ?thesis
        by (simp add: extract_event_def dict_get_def iterate_def event_text_def)
    next
      assume "\<exists>items. map_of kv ''content'' = Some (PyList items) \<and> list_all text_item_ok items"
      then obtain items where c: "map_of kv ''content'' = Some (PyList items)"
        and ok: "list_all text_item_ok items" by blast
      from extract_items_ok [OF ok, of acc] am kv c True show ?thesis
        by (simp add: extract_event_def dict_get_def iterate_def event_text_def)
    qed
  qed
qed

lemma parse_lines_ok:
  "list_all (line_ok loads) lines \<Longrightarrow>
   parse_lines loads lines evs acc =
     Inr (evs @ decoded_events loads lines,
          acc @ concat (map event_text (decoded_events loads lines)))"
proof (induction lines arbitrary: evs acc)
  case Nil
  then show ?case by (simp add: decoded_events_def)
next
  case (Cons line lines)
  from Cons.prems have l: "line_ok loads line" and rest: "list_all (line_ok loads) lines"
    by simp_all
  show ?case
  proof (cases "line = []")
    case True
    with Cons.IH [OF rest, of evs acc] show ?thesis
      by (simp add: decoded_events_def)
  next
    case ne: False
    show ?thesis
    proof (cases "loads line")
      case (Decoded v)
      with l ne have "event_ok v" by (simp add: line_ok_def)
      from extract_event_ok [OF this, of acc] have a: "extract_event v acc = Inr (acc @ event_text v)" .
      from Cons.IH [OF rest, of "evs @ [v]" "acc @ event_text v"] ne Decoded a show ?thesis
        by (simp add: decoded_events_def)
    next
      case DecodeError
      with Cons.IH [OF rest, of evs acc] ne show ?thesis
        by (simp add: decoded_events_def)
    next
      case (DecodeRaised e)
      with l ne show ?thesis by (simp add: line_ok_def)
    qed
  qed
qed

text \<open>
  C1 (as amended). For every raw output text whose non-empty lines each either fail to
  decode or decode to an event of the expected shape, \<^verbatim>\<open>_parse_json_output\<close> returns
  normally, whatever the decoder: the events are the decoded values in order, lines that
  do not decode are skipped, and the assistant message is the accumulated text of the
  assistant messages among them. When nothing decodes, the result has zero events and
  an empty assistant message.
\<close>

theorem parse_json_output_returns:
  assumes "list_all (line_ok loads) (split_lines (strip output))"
  shows "parse_json_output loads output =
            Inr \<lparr>events = decoded_events loads (split_lines (strip output)),
                 assistant_message =
                   concat (map event_text (decoded_events loads (split_lines (strip output)))),
                 raw_output = output\<rparr>
          \<and> (decoded_events loads (split_lines (strip output)) = [] \<longrightarrow>
               parse_json_output loads output =
                 Inr \<lparr>events = [], assistant_message = [], raw_output = output\<rparr>)"
  using parse_lines_ok [OF assms, of "[]" "[]"]
  by (simp add: parse_json_output_def)

theorem parse_json_output_returns_witness:
  "list_all (line_ok json_decode) (split_lines (strip hello_line))
   \<and> decoded_events json_decode (split_lines (strip hello_line)) = [hello_event]
   \<and> concat (map event_text [hello_event]) = ''Hello''
   \<and> parse_json_output json_decode hello_line =
        Inr \<lparr>events = [hello_event], assistant_message = ''Hello'', raw_output = hello_line\<rparr>"
proof -
  have h: "list_all (line_ok json_decode) (split_lines (strip hello_line))"
    by code_simp
  have d: "decoded_events json_decode (split_lines (strip hello_line)) = [hello_event]"
    by code_simp
  have t: "concat (map event_text [hello_event]) = ''Hello''"
    by code_simp
  from parse_json_output_returns [OF h] h d t show ?thesis
    by simp
qed

text \<open>
  C1 as stated fails: the line \<^verbatim>\<open>1\<close> is valid JSON, so it decodes (to the integer 1)
  and is appended; then \<^verbatim>\<open>event.get("type")\<close> raises \<^verbatim>\<open>AttributeError\<close>, which the
  handler for \<^verbatim>\<open>json.JSONDecodeError\<close> does not catch.
\<close>

theorem parse_json_output_raises_on_scalar:
  "parse_json_output json_decode ''1'' = Inl (no_attribute_get (PyInt 1))"
  by code_simp

text \<open>
  C7. The two-line input made of the assistant message \<^verbatim>\<open>Hello\<close> and the malformed line
  \<^verbatim>\<open>not-json\<close> gives the assistant message \<^verbatim>\<open>Hello\<close> and exactly one event; the
  malformed line is skipped and the parse does not fail.
\<close>

theorem parse_json_output_round_trip:
  "parse_json_output json_decode two_line_output =
     Inr \<lparr>events = [hello_event], assistant_message = ''Hello'', raw_output = two_line_output\<rparr>
   \<and> json_decode ''not-json'' = DecodeError"
  by code_simp

subsection \<open>The locator and the states of the adapter\<close>

lemma emit_fields [simp]:
  "authenticated (emit e s) = authenticated s"
  "codex_path (emit e s) = codex_path s"
  "environ (emit e s) = environ s"
  "effects (emit e s) = effects s @ [e]"
  by (simp_all add: emit_def)

lemma check_paths_fields:
  "authenticated (snd (check_paths w ps s)) = authenticated s"
  "environ (snd (check_paths w ps s)) = environ s"
  by (induction ps arbitrary: s) (simp_all add: Let_def)

lemma check_paths_found:
  "fst (check_paths w ps s) = Some p \<Longrightarrow> codex_path (snd (check_paths w ps s)) = Some p"
  by (induction ps arbitrary: s) (auto simp: Let_def split: if_splits)

lemma check_paths_none:
  "fst (check_paths w ps s) = None \<Longrightarrow> codex_path (snd (check_paths w ps s)) = codex_path s"
  by (induction ps arbitrary: s) (auto simp: Let_def split: if_splits)

lemma find_cached:
  "truthy (codex_path s) \<Longrightarrow> find_codex_cli w s = (codex_path s, s)"
  by (simp add: find_codex_cli_def)

lemma find_fields:
  "authenticated (snd (find_codex_cli w s)) = authenticated s"
  "environ (snd (find_codex_cli w s)) = environ s"
  by (simp_all add: find_codex_cli_def Let_def check_paths_fields)

lemma find_truthy_cached:
  assumes "truthy (fst (find_codex_cli w s))"
  shows "codex_path (snd (find_codex_cli w s)) = fst (find_codex_cli w s)"
proof (cases "truthy (codex_path s)")
  case True
  then show ?thesis by (simp add: find_cached)
next
  case cold: False
  show ?thesis
  proof (cases "truthy (which w ''codex'')")
    case True
    with cold show ?thesis by (simp add: find_codex_cli_def Let_def)
  next
    case False
    with cold have eq: "find_codex_cli w s
        = check_paths w (common_paths w) (emit (Which ''codex'') s)"
      by (simp add: find_codex_cli_def Let_def)
    with assms obtain p where "fst (check_paths w (common_paths w) (emit (Which ''codex'') s)) = Some p"
      by (auto simp: truthy_def split: option.splits)
    with eq show ?thesis by (simp add: check_paths_found)
  qed
qed

lemma find_inv: "adapter_inv c s \<Longrightarrow> adapter_inv c (snd (find_codex_cli w s))"
proof (cases "authenticated s")
  case True
  assume "adapter_inv c s"
  with True have "truthy (codex_path s)" by (simp add: adapter_inv_def)
  then have "find_codex_cli w s = (codex_path s, s)" by (rule find_cached)
  with \<open>adapter_inv c s\<close> show ?thesis by simp
next
  case False
  then show ?thesis by (simp add: adapter_inv_def find_fields)
qed


lemma trigger_cached:
  assumes "truthy (codex_path s)"
  shows "codex_path (snd (trigger_oauth_login w s)) = codex_path s"
    and "fst (trigger_oauth_login w s) \<Longrightarrow> authenticated (snd (trigger_oauth_login w s))"
    and "\<not> fst (trigger_oauth_login w s) \<Longrightarrow>
           authenticated (snd (trigger_oauth_login w s)) = authenticated s"
proof -
  from assms obtain path where p: "codex_path s = Some path" "path \<noteq> []"
    by (auto simp: truthy_def split: option.splits)
  with assms have f: "find_codex_cli w s = (Some path, s)"
    by (simp add: find_cached)
  show "codex_path (snd (trigger_oauth_login w s)) = codex_path s"
    using f p by (simp add: trigger_oauth_login_def Let_def split: run_outcome.splits)
  show "fst (trigger_oauth_login w s) \<Longrightarrow> authenticated (snd (trigger_oauth_login w s))"
    using f p by (simp add: trigger_oauth_login_def Let_def split: run_outcome.splits if_splits)
  show "\<not> fst (trigger_oauth_login w s) \<Longrightarrow>
           authenticated (snd (trigger_oauth_login w s)) = authenticated s"
    using f p by (simp add: trigger_oauth_login_def Let_def split: run_outcome.splits if_splits)
qed

lemma ensure_already: "authenticated s \<Longrightarrow> ensure_authenticated w c s = (Inr True, s)"
  by (simp add: ensure_authenticated_def)

lemma ensure_fresh:
  assumes "\<not> authenticated s"
  shows "fst (ensure_authenticated w c s) = Inr True \<Longrightarrow>
           authenticated (snd (ensure_authenticated w c s))
           \<and> truthy (codex_path (snd (ensure_authenticated w c s)))
           \<and> ((auth_method c = ''api_key'' \<and> api_key c \<noteq> []) \<or> auth_method c = ''oauth'')"
    and "fst (ensure_authenticated w c s) \<noteq> Inr True \<Longrightarrow>
           \<not> authenticated (snd (ensure_authenticated w c s))"
proof -
  obtain found s1 where f: "find_codex_cli w s = (found, s1)"
    by (cases "find_codex_cli w s")
  then have a1: "authenticated s1 = authenticated s"
    using find_fields(1) [of w s] by simp
  have c1: "truthy found \<Longrightarrow> codex_path s1 = found"
    using find_truthy_cached [of w s] f by simp
  define s2 where "s2 = emit (Log ''OAuth authentication required. Triggering Codex login...'') s1"
  have t: "truthy found \<Longrightarrow> truthy (codex_path s2)"
    using c1 by (simp add: s2_def)
  note tc = trigger_cached [of s2 w]
  obtain ok s3 where tr: "trigger_oauth_login w s2 = (ok, s3)"
    by (cases "trigger_oauth_login w s2")
  show "fst (ensure_authenticated w c s) = Inr True \<Longrightarrow>
           authenticated (snd (ensure_authenticated w c s))
           \<and> truthy (codex_path (snd (ensure_authenticated w c s)))
           \<and> ((auth_method c = ''api_key'' \<and> api_key c \<noteq> []) \<or> auth_method c = ''oauth'')"
    using assms f a1 c1 t tc(1,2) tr
    by (auto simp: ensure_authenticated_def s2_def split: if_splits option.splits)
  show "fst (ensure_authenticated w c s) \<noteq> Inr True \<Longrightarrow>
           \<not> authenticated (snd (ensure_authenticated w c s))"
    using assms f a1 t tc(3) tr
    by (auto simp: ensure_authenticated_def s2_def split: if_splits option.splits)
qed

lemma ensure_inv: "adapter_inv c s \<Longrightarrow> adapter_inv c (snd (ensure_authenticated w c s))"
proof (cases "authenticated s")
  case True
  assume "adapter_inv c s"
  with True show ?thesis by (simp add: ensure_already)
next
  case False
  show ?thesis
  proof (cases "fst (ensure_authenticated w c s) = Inr True")
    case True
    from ensure_fresh(1) [OF False True] show ?thesis
      by (simp add: adapter_inv_def)
  next
    case no: False
    from ensure_fresh(2) [OF False no] show ?thesis
      by (simp add: adapter_inv_def)
  qed
qed

text \<open>When the operating system accepts the credential, the authentication step does
  not raise.\<close>

lemma ensure_returns:
  assumes "credential_accepted w c"
  shows "\<exists>ok. fst (ensure_authenticated w c s) = Inr ok"
  using assms
  by (auto simp: ensure_authenticated_def credential_accepted_def split: prod.splits if_splits)

lemma build_fields:
  "snd (build_command w c s p) = snd (find_codex_cli w s)"
  by (simp add: build_command_def Let_def split: prod.splits option.splits)

lemma build_inv: "adapter_inv c s \<Longrightarrow> adapter_inv c (snd (build_command w c s p))"
  by (simp add: build_fields find_inv)


lemma inv_cong:
  "authenticated s' = authenticated s \<Longrightarrow> codex_path s' = codex_path s \<Longrightarrow>
   adapter_inv c s' = adapter_inv c s"
  by (simp add: adapter_inv_def)

lemma try_fields:
  "authenticated (snd (process_message_try w c s p)) = authenticated (snd (find_codex_cli w s))"
  "codex_path (snd (process_message_try w c s p)) = codex_path (snd (find_codex_cli w s))"
  using build_fields [of w c s p]
  by (auto simp: process_message_try_def Let_def
           split: prod.splits sum.splits run_outcome.splits)

lemma try_inv:
  assumes "adapter_inv c s"
  shows "adapter_inv c (snd (process_message_try w c s p))"
proof -
  have "adapter_inv c (snd (process_message_try w c s p))
        = adapter_inv c (snd (find_codex_cli w s))"
    by (rule inv_cong) (rule try_fields)+
  with find_inv [OF assms] show ?thesis by simp
qed

lemma process_inv:
  assumes "adapter_inv c s"
  shows "adapter_inv c (snd (process_message w c s m))"
proof (cases "coerce_message w m")
  case (Inl e)
  with assms show ?thesis by (simp add: process_message_def)
next
  case (Inr p)
  obtain auth s1 where e: "ensure_authenticated w c s = (auth, s1)"
    by (cases "ensure_authenticated w c s")
  with ensure_inv [OF assms, of w] have i1: "adapter_inv c s1" by simp
  obtain r s2 where t: "process_message_try w c s1 p = (r, s2)"
    by (cases "process_message_try w c s1 p")
  with try_inv [OF i1, of w p] have i2: "adapter_inv c s2" by simp
  have "\<And>e. adapter_inv c (emit e s2)"
    using i2 by (simp add: adapter_inv_def)
  with Inr e t i1 i2 show ?thesis
    by (auto simp: process_message_def exception_reply_def Let_def
             split: sum.splits py_exc.splits)
qed

lemma reachable_inv: "reachable c s \<Longrightarrow> adapter_inv c s"
proof (induction rule: reachable.induct)
  case (reach_init env)
  show ?case by (simp add: adapter_inv_def init_adapter_def)
next
  case (reach_find s w)
  then show ?case by (simp add: find_inv)
next
  case (reach_auth s w)
  then show ?case by (simp add: ensure_inv)
next
  case (reach_build s w p)
  then show ?case by (simp add: build_inv)
next
  case (reach_process s w m)
  then show ?case by (simp add: process_inv)
qed

subsection \<open>The command builder\<close>

text \<open>
  C3. Whenever the executable is located, \<^verbatim>\<open>_build_command(p)\<close> returns an argument
  vector whose last element is the prompt \<open>p\<close>, for every prompt and every configuration;
  before it stand the executable, \<^verbatim>\<open>exec\<close>, \<^verbatim>\<open>--json\<close>, and then, in this order and
  each only when configured, the model flag, the sandbox flag, the automation flag, the
  web-search flag and the working-directory flag.
\<close>

theorem build_command_order:
  assumes "fst (find_codex_cli w s) = Some path" and "path \<noteq> []"
  shows "\<exists>cmd. fst (build_command w c s p) = Inr cmd
           \<and> last cmd = p
           \<and> butlast cmd =
               [path, ''exec'', ''--json'']
               @ (if model c \<noteq> [] then [''--model'', model c] else [])
               @ (if sandbox_mode c \<noteq> [] then [''--sandbox'', sandbox_mode c] else [])
               @ (if full_auto c then [''--full-auto''] else [])
               @ (if enable_search c then [''--search''] else [])
               @ (if working_directory c \<noteq> [] then [''--cd'', working_directory c] else [])"
proof -
  obtain s1 where "find_codex_cli w s = (Some path, s1)"
    using assms(1) by (cases "find_codex_cli w s") simp
  with assms(2) show ?thesis
    by (simp add: build_command_def Let_def butlast_append)
qed

theorem build_command_order_witness:
  "fst (find_codex_cli example_runtime (init_adapter Map.empty)) = Some ''/usr/bin/codex''
   \<and> fst (build_command example_runtime example_config (init_adapter Map.empty) ''say hi'')
       = Inr [''/usr/bin/codex'', ''exec'', ''--json'', ''--model'', ''o4-mini'',
              ''--sandbox'', ''read-only'', ''--search'', ''--cd'', ''/work'', ''say hi'']"
proof -
  have h: "fst (find_codex_cli example_runtime (init_adapter Map.empty)) = Some ''/usr/bin/codex''"
    by (simp add: find_codex_cli_def example_runtime_def init_adapter_def truthy_def emit_def
                  Let_def)
  have ne: "''/usr/bin/codex'' \<noteq> []" by simp
  from build_command_order [OF h ne, of example_config "''say hi''"]
  obtain cmd where c: "fst (build_command example_runtime example_config (init_adapter Map.empty) ''say hi'') = Inr cmd"
    and l: "last cmd = ''say hi''"
    and b: "butlast cmd = [''/usr/bin/codex'', ''exec'', ''--json'', ''--model'', ''o4-mini'',
              ''--sandbox'', ''read-only'', ''--search'', ''--cd'', ''/work'']"
    by (auto simp: example_config_def)
  from b have "cmd \<noteq> []" by auto
  then have "cmd = butlast cmd @ [last cmd]" by simp
  with l b have "cmd = [''/usr/bin/codex'', ''exec'', ''--json'', ''--model'', ''o4-mini'',
              ''--sandbox'', ''read-only'', ''--search'', ''--cd'', ''/work'', ''say hi'']"
    by simp
  with c h show ?thesis by simp
qed


subsection \<open>The authenticator\<close>

text \<open>
  C4 (as amended). In pre-shared-key mode with a non-empty credential that the
  operating system accepts as the value of an environment variable, and a locatable
  executable, the first call of \<^verbatim>\<open>_ensure_authenticated\<close> returns true, with the
  credential stored in the environment variable and the adapter marked authenticated;
  from then on every call, under any runtime, returns true and leaves the state as it
  is: nothing is added to the trace of effects, so the executable is not located again
  and no login process is started.
\<close>

theorem ensure_authenticated_api_key:
  assumes "auth_method c = ''api_key''" and "api_key c \<noteq> []"
    and "environ_set w (api_key c) = None"
    and "truthy (fst (find_codex_cli w s))" and "\<not> authenticated s"
  shows "fst (ensure_authenticated w c s) = Inr True
         \<and> environ (snd (ensure_authenticated w c s)) ''OPENAI_API_KEY'' = Some (api_key c)
         \<and> authenticated (snd (ensure_authenticated w c s))
         \<and> (\<forall>w'. ensure_authenticated w' c (snd (ensure_authenticated w c s))
                    = (Inr True, snd (ensure_authenticated w c s)))"
proof -
  obtain found s1 where f: "find_codex_cli w s = (found, s1)"
    by (cases "find_codex_cli w s")
  with assms(4) have t: "truthy found" by simp
  from f assms t
  have e: "ensure_authenticated w c s =
             (Inr True,
              emit (Log ''Using API key authentication for Codex CLI'')
                (s1\<lparr>environ := (environ s1)(''OPENAI_API_KEY'' \<mapsto> api_key c),
                    authenticated := True\<rparr>))"
    by (simp add: ensure_authenticated_def)
  then have a: "authenticated (snd (ensure_authenticated w c s))" by simp
  from a have "\<forall>w'. ensure_authenticated w' c (snd (ensure_authenticated w c s))
                    = (Inr True, snd (ensure_authenticated w c s))"
    by (simp add: ensure_already)
  with e a show ?thesis by simp
qed

theorem ensure_authenticated_api_key_witness:
  "auth_method example_config = ''api_key'' \<and> api_key example_config \<noteq> []
   \<and> environ_set example_runtime (api_key example_config) = None
   \<and> truthy (fst (find_codex_cli example_runtime (init_adapter Map.empty)))
   \<and> \<not> authenticated (init_adapter Map.empty)
   \<and> fst (ensure_authenticated example_runtime example_config (init_adapter Map.empty))
       = Inr True
   \<and> environ (snd (ensure_authenticated example_runtime example_config (init_adapter Map.empty)))
        ''OPENAI_API_KEY'' = Some ''sk-test''"
proof -
  have h1: "auth_method example_config = ''api_key''" by (simp add: example_config_def)
  have h2: "api_key example_config \<noteq> []" by (simp add: example_config_def)
  have h3: "environ_set example_runtime (api_key example_config) = None"
    by (simp add: environ_set_def example_runtime_def example_config_def)
  have h4: "truthy (fst (find_codex_cli example_runtime (init_adapter Map.empty)))"
    by (simp add: find_codex_cli_def example_runtime_def init_adapter_def truthy_def emit_def
                  Let_def)
  have h5: "\<not> authenticated (init_adapter Map.empty)" by (simp add: init_adapter_def)
  have k: "api_key example_config = ''sk-test''" by (simp add: example_config_def)
  from ensure_authenticated_api_key [OF h1 h2 h3 h4 h5] h1 h2 h3 h4 h5 k show ?thesis
    by simp
qed

text \<open>
  C4 as stated fails: a credential with a NUL byte is not empty, and the executable is
  found, but \<^verbatim>\<open>os.environ["OPENAI_API_KEY"] = self.api_key\<close> raises \<^verbatim>\<open>ValueError\<close>;
  the method does not return true, and the adapter is not marked authenticated.
\<close>

theorem ensure_authenticated_raises_on_nul:
  "auth_method nul_config = ''api_key'' \<and> api_key nul_config \<noteq> []
   \<and> truthy (fst (find_codex_cli example_runtime (init_adapter Map.empty)))
   \<and> fst (ensure_authenticated example_runtime nul_config (init_adapter Map.empty))
       = Inl (ValueError ''embedded null byte'')
   \<and> \<not> authenticated (snd (ensure_authenticated example_runtime nul_config
                                (init_adapter Map.empty)))"
  by (simp add: nul_config_def example_config_def ensure_authenticated_def environ_set_def
                find_codex_cli_def example_runtime_def init_adapter_def truthy_def emit_def
                Let_def)

text \<open>
  C8. In pre-shared-key mode with an empty credential, \<^verbatim>\<open>_ensure_authenticated\<close>
  returns false in every state the adapter can be in, whatever the runtime answers
  (whether or not the executable is found). The result is the value false: no exception
  is raised.
\<close>

theorem ensure_authenticated_empty_key:
  assumes "reachable c s" and "auth_method c = ''api_key''" and "api_key c = []"
  shows "fst (ensure_authenticated w c s) = Inr False"
proof -
  from assms(1) have inv: "adapter_inv c s" by (rule reachable_inv)
  with assms(2,3) have fresh: "\<not> authenticated s"
    by (auto simp: adapter_inv_def split: if_splits)
  with assms(2,3) show ?thesis
    by (simp add: ensure_authenticated_def split: prod.splits)
qed

theorem ensure_authenticated_empty_key_witness:
  "reachable (example_config\<lparr>api_key := []\<rparr>) (init_adapter Map.empty)
   \<and> auth_method (example_config\<lparr>api_key := []\<rparr>) = ''api_key''
   \<and> api_key (example_config\<lparr>api_key := []\<rparr>) = []
   \<and> fst (ensure_authenticated example_runtime (example_config\<lparr>api_key := []\<rparr>)
             (init_adapter Map.empty)) = Inr False"
proof -
  have h1: "reachable (example_config\<lparr>api_key := []\<rparr>) (init_adapter Map.empty)"
    by (rule reach_init)
  have h2: "auth_method (example_config\<lparr>api_key := []\<rparr>) = ''api_key''"
    by (simp add: example_config_def)
  have h3: "api_key (example_config\<lparr>api_key := []\<rparr>) = []" by simp
  from ensure_authenticated_empty_key [OF h1 h2 h3] h1 h2 h3 show ?thesis by simp
qed

text \<open>
  C9. Whenever \<^verbatim>\<open>_ensure_authenticated\<close> returns true, the cache \<^verbatim>\<open>_codex_path\<close> holds a
  path, so that \<^verbatim>\<open>_build_command\<close> on the resulting state returns an argument vector
  under every runtime and for every prompt: its failure \<^verbatim>\<open>Codex CLI not found\<close> cannot
  happen in the \<^verbatim>\<open>_process_message\<close> call that made the authentication step.
\<close>

theorem authenticated_has_path:
  assumes "reachable c s" and "fst (ensure_authenticated w c s) = Inr True"
  shows "truthy (codex_path (snd (ensure_authenticated w c s)))
         \<and> (\<forall>w' p. \<exists>cmd. fst (build_command w' c (snd (ensure_authenticated w c s)) p) = Inr cmd)"
proof -
  let ?s1 = "snd (ensure_authenticated w c s)"
  have t: "truthy (codex_path ?s1)"
  proof (cases "authenticated s")
    case True
    with reachable_inv [OF assms(1)] show ?thesis
      by (simp add: ensure_already adapter_inv_def)
  next
    case False
    from ensure_fresh(1) [OF False assms(2)] show ?thesis by simp
  qed
  then obtain path where p: "codex_path ?s1 = Some path" "path \<noteq> []"
    by (auto simp: truthy_def split: option.splits)
  have "\<exists>cmd. fst (build_command w' c ?s1 q) = Inr cmd" for w' q
    using find_cached [OF t, of w'] p
    by (simp add: build_command_def Let_def)
  with t show ?thesis by blast
qed

theorem authenticated_has_path_witness:
  "reachable example_config (init_adapter Map.empty)
   \<and> fst (ensure_authenticated example_runtime example_config (init_adapter Map.empty))
       = Inr True
   \<and> truthy (codex_path (snd (ensure_authenticated example_runtime example_config
                                 (init_adapter Map.empty))))"
proof -
  have h1: "reachable example_config (init_adapter Map.empty)" by (rule reach_init)
  have h2: "fst (ensure_authenticated example_runtime example_config (init_adapter Map.empty))
              = Inr True"
    by (simp add: ensure_authenticated_def environ_set_def find_codex_cli_def
                  example_runtime_def example_config_def init_adapter_def truthy_def emit_def
                  Let_def)
  from authenticated_has_path [OF h1 h2] h1 h2 show ?thesis by simp
qed

subsection \<open>The message pipeline\<close>

lemma try_unfold:
  assumes "build_command w c s p = (Inr cmd, s1)"
  shows "fst (process_message_try w c s p) =
     (case subprocess_run w cmd (exec_env c (environ s1)) (exec_cwd w c) (timeout c) of
        TimedOut \<Rightarrow> Inl TimeoutExpired
      | RunFailed e \<Rightarrow> Inl (OtherException e)
      | Completed returncode out err \<Rightarrow>
          if returncode \<noteq> 0 then
            Inr [(''error'', PyBool True),
                 (''error_type'', PyStr ''execution_error''),
                 (''message'', PyStr (if err \<noteq> [] then err else ''Codex execution failed'')),
                 (''return_code'', PyInt returncode),
                 (''original_message'', PyStr p)]
          else
            (case parse_json_output (json_loads w) out of
               Inl e \<Rightarrow> Inl e
             | Inr parsed \<Rightarrow>
                 Inr [(''success'', PyBool True),
                      (''response'', PyStr (assistant_message parsed)),
                      (''events'', PyList (events parsed)),
                      (''original_message'', PyStr p)]))"
  using assms
  by (simp add: process_message_try_def Let_def split: run_outcome.splits sum.splits)

lemma process_unfold:
  assumes "coerce_message w m = Inr p" and "ensure_authenticated w c s = (Inr True, s1)"
  shows "fst (process_message w c s m) =
     (case fst (process_message_try w c s1 p) of
        Inr reply \<Rightarrow> Inr reply
      | Inl e \<Rightarrow>
          (case e of
             TimeoutExpired \<Rightarrow>
               Inr [(''error'', PyBool True),
                    (''error_type'', PyStr ''timeout''),
                    (''message'',
                     PyStr (''Codex execution timed out after '' @ str_int (timeout c)
                            @ '' seconds'')),
                    (''original_message'', PyStr p)]
           | RuntimeError x \<Rightarrow> fst (exception_reply p x s1)
           | AttributeError x \<Rightarrow> fst (exception_reply p x s1)
           | TypeError x \<Rightarrow> fst (exception_reply p x s1)
           | ValueError x \<Rightarrow> fst (exception_reply p x s1)
           | UnicodeEncodeError x \<Rightarrow> fst (exception_reply p x s1)
           | OtherException x \<Rightarrow> fst (exception_reply p x s1)))"
  using assms
  by (simp add: process_message_def Let_def exception_reply_def
           split: prod.splits sum.splits py_exc.splits)

text \<open>
  C5. When the message is made a string, the authentication step succeeds, the command
  is built and the child process runs into the deadline, \<^verbatim>\<open>_process_message\<close> returns
  the error result of kind \<^verbatim>\<open>timeout\<close> (not \<^verbatim>\<open>execution_error\<close>), and its message states
  the configured deadline.
\<close>

theorem process_message_timeout:
  assumes "coerce_message w m = Inr p"
    and "ensure_authenticated w c s = (Inr True, s1)"
    and "build_command w c s1 p = (Inr cmd, s2)"
    and "subprocess_run w cmd (exec_env c (environ s2)) (exec_cwd w c) (timeout c) = TimedOut"
  shows "fst (process_message w c s m) =
           Inr [(''error'', PyBool True),
                (''error_type'', PyStr ''timeout''),
                (''message'',
                 PyStr (''Codex execution timed out after '' @ str_int (timeout c) @ '' seconds'')),
                (''original_message'', PyStr p)]"
  by (simp add: process_unfold [OF assms(1,2)] try_unfold [OF assms(3)] assms(4))

text \<open>
  C6. When the message is made a string, the authentication step succeeds, the command
  is built and the child process completes with an exit code other than zero,
  \<^verbatim>\<open>_process_message\<close> returns the error result of kind \<^verbatim>\<open>execution_error\<close> whose
  \<^verbatim>\<open>return_code\<close> is the exit code and whose message is the captured error output, or
  \<^verbatim>\<open>Codex execution failed\<close> when that is empty.
\<close>

theorem process_message_nonzero_exit:
  assumes "coerce_message w m = Inr p"
    and "ensure_authenticated w c s = (Inr True, s1)"
    and "build_command w c s1 p = (Inr cmd, s2)"
    and "subprocess_run w cmd (exec_env c (environ s2)) (exec_cwd w c) (timeout c)
           = Completed returncode out err"
    and "returncode \<noteq> 0"
  shows "fst (process_message w c s m) =
           Inr [(''error'', PyBool True),
                (''error_type'', PyStr ''execution_error''),
                (''message'', PyStr (if err = [] then ''Codex execution failed'' else err)),
                (''return_code'', PyInt returncode),
                (''original_message'', PyStr p)]"
  by (simp add: process_unfold [OF assms(1,2)] try_unfold [OF assms(3)] assms(4,5))

lemmas example_defs =
  ensure_authenticated_def environ_set_def build_command_def find_codex_cli_def
  example_runtime_def example_config_def init_adapter_def truthy_def emit_def Let_def
  coerce_message_def py_str_def exec_env_def exec_cwd_def

theorem process_message_timeout_witness:
  "coerce_message timeout_runtime (PyStr ''say hi'') = Inr ''say hi''
   \<and> fst (ensure_authenticated timeout_runtime example_config (init_adapter Map.empty))
       = Inr True
   \<and> fst (build_command timeout_runtime example_config
            (snd (ensure_authenticated timeout_runtime example_config (init_adapter Map.empty)))
            ''say hi'') = Inr example_command
   \<and> subprocess_run timeout_runtime example_command
        (exec_env example_config
           (environ (snd (ensure_authenticated timeout_runtime example_config
                            (init_adapter Map.empty)))))
        (exec_cwd timeout_runtime example_config) (timeout example_config) = TimedOut
   \<and> fst (process_message timeout_runtime example_config (init_adapter Map.empty)
            (PyStr ''say hi'')) =
       Inr [(''error'', PyBool True),
            (''error_type'', PyStr ''timeout''),
            (''message'', PyStr ''Codex execution timed out after 300 seconds''),
            (''original_message'', PyStr ''say hi'')]"
proof -
  define s1 where
    "s1 = snd (ensure_authenticated timeout_runtime example_config (init_adapter Map.empty))"
  define s2 where
    "s2 = snd (build_command timeout_runtime example_config s1 ''say hi'')"
  have p: "coerce_message timeout_runtime (PyStr ''say hi'') = Inr ''say hi''"
    by (simp add: coerce_message_def py_str_def)
  have h1: "ensure_authenticated timeout_runtime example_config (init_adapter Map.empty)
              = (Inr True, s1)"
    by (simp add: s1_def prod_eq_iff timeout_runtime_def example_defs)
  have h2: "build_command timeout_runtime example_config s1 ''say hi''
              = (Inr example_command, s2)"
    by (simp add: s1_def s2_def prod_eq_iff timeout_runtime_def example_command_def
                  example_defs)
  have h3: "subprocess_run timeout_runtime example_command
              (exec_env example_config (environ s2))
              (exec_cwd timeout_runtime example_config) (timeout example_config) = TimedOut"
    by (simp add: timeout_runtime_def)
  have e: "environ s2 = environ s1"
    by (simp add: s1_def s2_def timeout_runtime_def example_defs)
  have t: "str_int (timeout example_config) = ''300''"
    by code_simp
  have a1: "fst (ensure_authenticated timeout_runtime example_config (init_adapter Map.empty))
              = Inr True"
    using h1 by simp
  have a2: "fst (build_command timeout_runtime example_config
                  (snd (ensure_authenticated timeout_runtime example_config
                          (init_adapter Map.empty)))
                  ''say hi'') = Inr example_command"
    using h2 by (simp add: s1_def)
  have a3: "environ (snd (ensure_authenticated timeout_runtime example_config
                            (init_adapter Map.empty)))
              = environ s2"
    using e by (simp add: s1_def)
  note r = process_message_timeout [OF p h1 h2 h3]
  show ?thesis
    using a1 a2 a3 h3 r p t by simp
qed

theorem process_message_nonzero_exit_witness:
  "coerce_message failing_runtime (PyStr ''say hi'') = Inr ''say hi''
   \<and> fst (ensure_authenticated failing_runtime example_config (init_adapter Map.empty))
       = Inr True
   \<and> fst (build_command failing_runtime example_config
            (snd (ensure_authenticated failing_runtime example_config (init_adapter Map.empty)))
            ''say hi'') = Inr example_command
   \<and> subprocess_run failing_runtime example_command
        (exec_env example_config
           (environ (snd (ensure_authenticated failing_runtime example_config
                            (init_adapter Map.empty)))))
        (exec_cwd failing_runtime example_config) (timeout example_config)
       = Completed 1 [] ''bad sandbox flag''
   \<and> (1::int) \<noteq> 0
   \<and> fst (process_message failing_runtime example_config (init_adapter Map.empty)
            (PyStr ''say hi'')) =
       Inr [(''error'', PyBool True),
            (''error_type'', PyStr ''execution_error''),
            (''message'', PyStr ''bad sandbox flag''),
            (''return_code'', PyInt 1),
            (''original_message'', PyStr ''say hi'')]"
proof -
  define s1 where
    "s1 = snd (ensure_authenticated failing_runtime example_config (init_adapter Map.empty))"
  define s2 where
    "s2 = snd (build_command failing_runtime example_config s1 ''say hi'')"
  have p: "coerce_message failing_runtime (PyStr ''say hi'') = Inr ''say hi''"
    by (simp add: coerce_message_def py_str_def)
  have h1: "ensure_authenticated failing_runtime example_config (init_adapter Map.empty)
              = (Inr True, s1)"
    by (simp add: s1_def prod_eq_iff failing_runtime_def example_defs)
  have h2: "build_command failing_runtime example_config s1 ''say hi''
              = (Inr example_command, s2)"
    by (simp add: s1_def s2_def prod_eq_iff failing_runtime_def example_command_def
                  example_defs)
  have h3: "subprocess_run failing_runtime example_command
              (exec_env example_config (environ s2))
              (exec_cwd failing_runtime example_config) (timeout example_config)
            = Completed 1 [] ''bad sandbox flag''"
    by (simp add: failing_runtime_def)
  have h4: "(1::int) \<noteq> 0" by simp
  have e: "environ s2 = environ s1"
    by (simp add: s1_def s2_def failing_runtime_def example_defs)
  have a1: "fst (ensure_authenticated failing_runtime example_config (init_adapter Map.empty))
              = Inr True"
    using h1 by simp
  have a2: "fst (build_command failing_runtime example_config
                  (snd (ensure_authenticated failing_runtime example_config
                          (init_adapter Map.empty)))
                  ''say hi'') = Inr example_command"
    using h2 by (simp add: s1_def)
  have a3: "environ (snd (ensure_authenticated failing_runtime example_config
                            (init_adapter Map.empty)))
              = environ s2"
    using e by (simp add: s1_def)
  note r = process_message_nonzero_exit [OF p h1 h2 h3 h4]
  show ?thesis
    using a1 a2 a3 h3 r p by simp
qed

lemma try_result_shape:
  "case fst (process_message_try w c s p) of
     Inl e \<Rightarrow> True
   | Inr d \<Rightarrow> (success_shape p d \<and> \<not> error_shape p d) \<or> (error_shape p d \<and> \<not> success_shape p d)"
proof (cases "build_command w c s p")
  case (Pair built s1)
  show ?thesis
  proof (cases built)
    case (Inl e)
    with Pair show ?thesis
      by (simp add: process_message_try_def)
  next
    case (Inr cmd)
    with Pair have b: "build_command w c s p = (Inr cmd, s1)" by simp
    show ?thesis
      unfolding try_unfold [OF b]
      by (simp add: success_shape_def error_shape_def error_kinds_def
               split: run_outcome.splits sum.splits)
  qed
qed

text \<open>Once the message is a string and the authentication step has returned, the
  method returns a mapping of exactly one of the two shapes.\<close>

lemma process_after_auth:
  assumes "coerce_message w m = Inr p" and "ensure_authenticated w c s = (Inr ok, s1)"
  shows "\<exists>d. fst (process_message w c s m) = Inr d
           \<and> ((success_shape p d \<and> \<not> error_shape p d)
              \<or> (error_shape p d \<and> \<not> success_shape p d))"
proof (cases ok)
  case False
  with assms show ?thesis
    by (simp add: process_message_def success_shape_def error_shape_def error_kinds_def)
next
  case True
  with assms(2) have e: "ensure_authenticated w c s = (Inr True, s1)" by simp
  show ?thesis
  proof (cases "fst (process_message_try w c s1 p)")
    case (Inr d)
    with try_result_shape [where w = w and c = c and s = s1 and p = p]
    show ?thesis
      by (simp add: process_unfold [OF assms(1) e])
  next
    case (Inl x)
    then show ?thesis
      by (cases x)
         (simp_all add: process_unfold [OF assms(1) e] exception_reply_def success_shape_def
                        error_shape_def error_kinds_def)
  qed
qed

lemma process_result_shape:
  assumes "coerce_message w m = Inr p" and "credential_accepted w c"
  shows "\<exists>d. fst (process_message w c s m) = Inr d
           \<and> ((success_shape p d \<and> \<not> error_shape p d)
              \<or> (error_shape p d \<and> \<not> success_shape p d))"
proof -
  from ensure_returns [OF assms(2), of s] obtain ok where
    "fst (ensure_authenticated w c s) = Inr ok" ..
  then have "ensure_authenticated w c s = (Inr ok, snd (ensure_authenticated w c s))"
    by (simp add: prod_eq_iff)
  from process_after_auth [OF assms(1) this] show ?thesis .
qed


text \<open>
  C2 (as amended). For every message that \<^verbatim>\<open>str()\<close> makes a string, every
  configuration whose credential the operating system accepts as the value of an
  environment variable, and every state and runtime (every outcome of locating,
  login, command building, child process and parsing), \<^verbatim>\<open>_process_message\<close> returns a
  result mapping and no exception leaves it; the mapping has exactly one of the two
  shapes: the success shape, or the error shape, whose kind is one of
  \<^verbatim>\<open>authentication_error\<close>, \<^verbatim>\<open>execution_error\<close>, \<^verbatim>\<open>timeout\<close>, \<^verbatim>\<open>exception\<close> and which
  carries a message and the original prompt.
\<close>

theorem process_message_always_result:
  assumes "coerce_message w m = Inr p" and "credential_accepted w c"
  shows "\<exists>d. fst (process_message w c s m) = Inr d
           \<and> ((success_shape p d \<and> \<not> error_shape p d)
              \<or> (error_shape p d \<and> \<not> success_shape p d))"
  using assms by (rule process_result_shape)

theorem process_message_always_result_witness:
  "coerce_message timeout_runtime (PyStr ''say hi'') = Inr ''say hi''
   \<and> credential_accepted timeout_runtime example_config
   \<and> (\<exists>d. fst (process_message timeout_runtime example_config (init_adapter Map.empty)
                 (PyStr ''say hi'')) = Inr d
          \<and> (success_shape ''say hi'' d \<and> \<not> error_shape ''say hi'' d
             \<or> error_shape ''say hi'' d \<and> \<not> success_shape ''say hi'' d))"
proof -
  have h1: "coerce_message timeout_runtime (PyStr ''say hi'') = Inr ''say hi''"
    by (simp add: coerce_message_def py_str_def)
  have h2: "credential_accepted timeout_runtime example_config"
    by (simp add: credential_accepted_def environ_set_def timeout_runtime_def
                  example_runtime_def example_config_def)
  from process_message_always_result [OF h1 h2, of "init_adapter Map.empty"] h1 h2
  show ?thesis by simp
qed

text \<open>
  C2 as stated fails: the coercion of the message and \<^verbatim>\<open>_ensure_authenticated\<close> stand
  before the \<^verbatim>\<open>try\<close> block. With a credential that holds a NUL byte the assignment to
  \<^verbatim>\<open>os.environ\<close> raises \<^verbatim>\<open>ValueError\<close>, and the exception leaves \<^verbatim>\<open>_process_message\<close>: no
  result mapping is returned.
\<close>

theorem process_message_raises_on_nul:
  "fst (process_message example_runtime nul_config (init_adapter Map.empty) (PyStr ''say hi''))
     = Inl (ValueError ''embedded null byte'')"
  by (simp add: process_message_def coerce_message_def py_str_def nul_config_def
                example_config_def ensure_authenticated_def environ_set_def
                find_codex_cli_def example_runtime_def init_adapter_def truthy_def emit_def
                Let_def)


lemma runs_simps [simp]:
  "runs (emit e s) = runs s @ (case e of Run argv \<Rightarrow> [argv] | _ \<Rightarrow> [])"
  "runs (s\<lparr>codex_path := x\<rparr>) = runs s"
  "runs (s\<lparr>authenticated := b\<rparr>) = runs s"
  "runs (s\<lparr>environ := env\<rparr>) = runs s"
  by (simp_all add: runs_def emit_def)










end
